theory Spec2Isabelle
  imports Main "HOL-Library.AList" "HOL-Library.Sublist"
begin

section \<open>The version bump script of rag-rs\<close>

text \<open>
  A shallow embedding of \<^verbatim>\<open>scripts/version_bump.py\<close>. A Python \<^verbatim>\<open>str\<close> is the list of its
  code points, so that every string the script can meet is a value of the model; \<open>py\<close>
  turns a literal of the source into such a list. What Python knows of a code point
  (whether it is a decimal, a digit, white space, what its lower case is) is written out
  for the code points below 256 and is a parameter, the record \<open>unicode\<close>, for the others:
  it is the character database of the interpreter. Python's \<^verbatim>\<open>int\<close> is \<^typ>\<open>int\<close> (the
  interpreter's limit on the number of digits of a converted integer is not modelled).
  Every exception the script can raise is a value of \<open>error\<close>.
\<close>

subsection \<open>Strings, character classes and string methods\<close>

type_synonym pystr = "nat list"

definition py :: "string \<Rightarrow> pystr" where
  "py s = map of_char s"

text \<open>The newline and the double quote, as strings of one character.\<close>

abbreviation NL :: pystr where "NL \<equiv> [0x0A]"

abbreviation DQ :: pystr where "DQ \<equiv> [0x22]"

datatype error =
  AssertionError | ValueError | FileNotFoundError | EOFError | DecodeError | ReError
  | IndexError

text \<open>
  The character database beyond U+00FF: the value of a code point that is a decimal
  digit, whether a code point is another digit (a digit that is not a decimal), whether
  it is white space, and the lower case of the code point at a position of a string (one
  or more code points; for the capital sigma it depends on the characters around).
\<close>

record unicode =
  decimal_wide :: "nat \<Rightarrow> nat option"
  digit_wide :: "nat \<Rightarrow> bool"
  space_wide :: "nat \<Rightarrow> bool"
  lower_wide :: "pystr \<Rightarrow> nat \<Rightarrow> pystr"

text \<open>\<^verbatim>\<open>c.isdecimal()\<close>: the decimal digits, which are the ones \<^verbatim>\<open>int()\<close> reads.\<close>

definition isdecimal_char :: "unicode \<Rightarrow> nat \<Rightarrow> bool" where
  "isdecimal_char U c \<longleftrightarrow>
     (if c < 256 then 48 \<le> c \<and> c \<le> 57 else decimal_wide U c \<noteq> None)"

text \<open>
  \<^verbatim>\<open>c.isdigit()\<close>: the decimal digits and the other digits; below 256 these are the
  superscripts two, three and one (U+00B2, U+00B3, U+00B9).
\<close>

definition isdigit_char :: "unicode \<Rightarrow> nat \<Rightarrow> bool" where
  "isdigit_char U c \<longleftrightarrow>
     isdecimal_char U c
     \<or> (if c < 256 then c = 0xB2 \<or> c = 0xB3 \<or> c = 0xB9 else digit_wide U c)"

text \<open>\<^verbatim>\<open>s.isdigit()\<close>: false on the empty string.\<close>

definition isdigit :: "unicode \<Rightarrow> pystr \<Rightarrow> bool" where
  "isdigit U s \<longleftrightarrow> s \<noteq> [] \<and> list_all (isdigit_char U) s"

text \<open>
  \<^verbatim>\<open>c.isspace()\<close>, which is also the class \<^verbatim>\<open>\s\<close> of a \<^verbatim>\<open>str\<close> pattern; below 256:
  U+0009 to U+000D, U+001C to U+001F, the space, U+0085 and U+00A0.
\<close>

definition isspace_char :: "unicode \<Rightarrow> nat \<Rightarrow> bool" where
  "isspace_char U c \<longleftrightarrow>
     (if c < 256
      then (9 \<le> c \<and> c \<le> 13) \<or> (28 \<le> c \<and> c \<le> 32) \<or> c = 133 \<or> c = 160
      else space_wide U c)"

text \<open>
  \<^verbatim>\<open>s.lower()\<close> goes through the string; below 256, A to Z and U+00C0 to U+00DE (but the
  multiplication sign) move up by 32 and the other code points stay.
\<close>

definition lower_char :: "nat \<Rightarrow> nat" where
  "lower_char c =
     (if (65 \<le> c \<and> c \<le> 90) \<or> (192 \<le> c \<and> c \<le> 222 \<and> c \<noteq> 215) then c + 32 else c)"

fun lower_from :: "unicode \<Rightarrow> pystr \<Rightarrow> nat \<Rightarrow> pystr \<Rightarrow> pystr" where
  "lower_from U s i [] = []"
| "lower_from U s i (c # cs) =
     (if c < 256 then [lower_char c] else lower_wide U s i) @ lower_from U s (Suc i) cs"

definition lower :: "unicode \<Rightarrow> pystr \<Rightarrow> pystr" where
  "lower U s = lower_from U s 0 s"

text \<open>\<^verbatim>\<open>s.strip()\<close>: the white space of both ends is dropped.\<close>

definition strip :: "unicode \<Rightarrow> pystr \<Rightarrow> pystr" where
  "strip U s = rev (dropWhile (isspace_char U) (rev (dropWhile (isspace_char U) s)))"

text \<open>
  \<^verbatim>\<open>s.split(sep)\<close> for a separator of one character: one segment more than there are
  separators, empty segments kept. A character other than the separator goes to the front
  of the first segment of the rest; the rest always has one (lemma \<open>split_not_Nil\<close>), so
  the first case below is never taken.
\<close>

fun split :: "'a \<Rightarrow> 'a list \<Rightarrow> 'a list list" where
  "split sep [] = [[]]"
| "split sep (c # cs) =
     (if c = sep then [] # split sep cs
      else (case split sep cs of [] \<Rightarrow> [[c]] | seg # segs \<Rightarrow> (c # seg) # segs))"

text \<open>
  \<^verbatim>\<open>int(s)\<close> on the strings the script passes to it, those with \<^verbatim>\<open>s.isdigit()\<close>:
  the value in base ten when every character is a decimal, a \<^verbatim>\<open>ValueError\<close> otherwise.
\<close>

definition digit_val :: "unicode \<Rightarrow> nat \<Rightarrow> int" where
  "digit_val U c =
     (if c < 256 then int c - 48 else (case decimal_wide U c of Some d \<Rightarrow> int d | None \<Rightarrow> 0))"

definition py_int :: "unicode \<Rightarrow> pystr \<Rightarrow> error + int" where
  "py_int U s =
     (if s \<noteq> [] \<and> list_all (isdecimal_char U) s
      then Inr (foldl (\<lambda>acc c. 10 * acc + digit_val U c) 0 s)
      else Inl ValueError)"

text \<open>\<^verbatim>\<open>str(i)\<close>, the conversion of the f-string: base ten, a minus sign when negative.\<close>

definition digit_char :: "nat \<Rightarrow> nat" where
  "digit_char d = 48 + d"

function str_nat :: "nat \<Rightarrow> pystr" where
  "str_nat n = (if n < 10 then [digit_char n] else str_nat (n div 10) @ [digit_char (n mod 10)])"
  by pat_completeness auto
termination
  by (relation "measure (\<lambda>n. n)") auto

declare str_nat.simps [simp del]

definition str_int :: "int \<Rightarrow> pystr" where
  "str_int i = (if i < 0 then 0x2D # str_nat (nat (- i)) else str_nat (nat i))"

subsection \<open>The semver model\<close>

record Version =
  major :: int
  minor :: int
  patch :: int

definition parse_semver :: "unicode \<Rightarrow> pystr \<Rightarrow> error + Version" where
  "parse_semver U version =
     (let sep = split 0x2E version
      in if length sep \<noteq> 3 then Inl AssertionError
         else if \<not> list_all (isdigit U) sep then Inl AssertionError
         else (case py_int U (sep ! 0) of Inl e \<Rightarrow> Inl e | Inr a \<Rightarrow>
               (case py_int U (sep ! 1) of Inl e \<Rightarrow> Inl e | Inr b \<Rightarrow>
                (case py_int U (sep ! 2) of Inl e \<Rightarrow> Inl e | Inr c \<Rightarrow>
                   Inr \<lparr>major = a, minor = b, patch = c\<rparr>))))"

definition compare_semver :: "Version \<Rightarrow> Version \<Rightarrow> bool" where
  "compare_semver v1 v2 \<longleftrightarrow>
     major v1 = major v2 \<and> minor v1 = minor v2 \<and> patch v1 = patch v2"

definition semver_to_str :: "Version \<Rightarrow> pystr" where
  "semver_to_str v =
     str_int (major v) @ py ''.'' @ str_int (minor v) @ py ''.'' @ str_int (patch v)"

definition bump_semver :: "Version \<Rightarrow> pystr \<Rightarrow> pystr" where
  "bump_semver version bump_type =
     (let (major', minor', patch') =
            (if bump_type = py ''major'' then (major version + 1, 0, 0)
             else if bump_type = py ''minor'' then (major version, minor version + 1, 0)
             else (major version, minor version, patch version + 1))
      in semver_to_str \<lparr>major = major', minor = minor', patch = patch'\<rparr>)"

subsection \<open>The substitutions of the writers\<close>

text \<open>
  \<^verbatim>\<open>re.sub(r'^version\s*=\s*"[^"]+"$', repl, content, count=1, flags=re.MULTILINE)\<close>.
  \<open>match_version_line\<close> is the match of the pattern after its \<^verbatim>\<open>^\<close>, at the start of the
  text it is given: the word, white space, the equals sign, white space, a quote, one or
  more characters other than a quote, a quote, and then the end of the text or a newline.
  Each repetition is followed by a character outside its class, so that backtracking finds
  nothing the greedy match has not found. The result is the text after the match.
\<close>

definition match_version_line :: "unicode \<Rightarrow> pystr \<Rightarrow> pystr option" where
  "match_version_line U s =
     (if take 7 s \<noteq> py ''version'' then None
      else (case dropWhile (isspace_char U) (drop 7 s) of
              [] \<Rightarrow> None
            | e # r1 \<Rightarrow>
                if e \<noteq> 0x3D then None
                else (case dropWhile (isspace_char U) r1 of
                        [] \<Rightarrow> None
                      | q # r2 \<Rightarrow>
                          if q \<noteq> 0x22 \<or> takeWhile (\<lambda>c. c \<noteq> 0x22) r2 = [] then None
                          else (case dropWhile (\<lambda>c. c \<noteq> 0x22) r2 of
                                  [] \<Rightarrow> None
                                | q' # r3 \<Rightarrow>
                                    if r3 = [] \<or> hd r3 = 0x0A then Some r3 else None))))"

text \<open>
  The search goes through the positions from the left; \<open>bol\<close> says whether the position
  is the start of the text or follows a newline, where \<^verbatim>\<open>^\<close> matches. The first match is
  replaced and the rest is kept (\<^verbatim>\<open>count=1\<close>); with no match the text is returned as it
  is. This is the substitution with a replacement that is inserted as it is.
\<close>

fun re_sub_from :: "unicode \<Rightarrow> bool \<Rightarrow> pystr \<Rightarrow> pystr \<Rightarrow> pystr" where
  "re_sub_from U bol repl [] = []"
| "re_sub_from U bol repl (c # cs) =
     (case (if bol then match_version_line U (c # cs) else None) of
        Some post \<Rightarrow> repl @ post
      | None \<Rightarrow> c # re_sub_from U (c = 0x0A) repl cs)"

definition re_sub_version_line :: "unicode \<Rightarrow> pystr \<Rightarrow> pystr \<Rightarrow> pystr" where
  "re_sub_version_line U repl content = re_sub_from U True repl content"

text \<open>
  \<^verbatim>\<open>re.sub\<close> reads its replacement as a template. A template with no backslash stands
  for itself. In one that has a backslash the library expands the escapes and the group
  references, or raises (\<^verbatim>\<open>re.error\<close>, \<^verbatim>\<open>IndexError\<close>) before it looks at the text, so
  before anything is written; what the call gives then is the parameter \<open>re_escaped\<close>, of
  the template and the text.
\<close>

definition re_sub ::
  "(pystr \<Rightarrow> pystr \<Rightarrow> error + pystr) \<Rightarrow> unicode \<Rightarrow> pystr \<Rightarrow> pystr \<Rightarrow> error + pystr" where
  "re_sub re_escaped U repl content =
     (if 0x5C \<in> set repl then re_escaped repl content
      else Inr (re_sub_version_line U repl content))"

text \<open>
  \<^verbatim>\<open>s.replace(old, new)\<close>: every occurrence of \<open>old\<close>, from the left, without overlap;
  with an empty \<open>old\<close>, \<open>new\<close> goes before every character and at the end.
\<close>

function replace_from :: "'a list \<Rightarrow> 'a list \<Rightarrow> 'a list \<Rightarrow> 'a list" where
  "replace_from old new [] = []"
| "replace_from old new (c # cs) =
     (if old \<noteq> [] \<and> prefix old (c # cs)
      then new @ replace_from old new (drop (length old - 1) cs)
      else c # replace_from old new cs)"
  by pat_completeness auto
termination
  by (relation "measure (\<lambda>(old, new, s). length s)") auto

definition str_replace :: "'a list \<Rightarrow> 'a list \<Rightarrow> 'a list \<Rightarrow> 'a list" where
  "str_replace old new s =
     (if old = [] then new @ concat (map (\<lambda>c. c # new) s) else replace_from old new s)"

subsection \<open>Files, parsed manifests and the writers\<close>

text \<open>
  The file system maps a name to the text in the file; \<open>trace\<close> records what the process
  wrote to standard output and to files, in order. Opening a missing file raises when it
  is for reading and creates the file when it is for writing; other failures of the file
  system are not modelled. A file opened in binary mode is read as it is
  (\<open>read_binary\<close>); one opened in text mode has its line ends CR LF and CR turned into LF
  when it is read (\<open>read_file\<close>). A text is written as it is given, which is what text
  mode does where the line separator is LF.
\<close>

datatype event = Stdout pystr | Write string pystr

record world =
  files :: "string \<rightharpoonup> pystr"
  trace :: "event list"

fun universal_newlines :: "pystr \<Rightarrow> pystr" where
  "universal_newlines [] = []"
| "universal_newlines [c] = (if c = 0x0D then [0x0A] else [c])"
| "universal_newlines (c # d # cs) =
     (if c = 0x0D \<and> d = 0x0A then 0x0A # universal_newlines cs
      else if c = 0x0D then 0x0A # universal_newlines (d # cs)
      else c # universal_newlines (d # cs))"

definition read_binary :: "string \<Rightarrow> world \<Rightarrow> error + pystr" where
  "read_binary name w =
     (case files w name of None \<Rightarrow> Inl FileNotFoundError | Some c \<Rightarrow> Inr c)"

definition read_file :: "string \<Rightarrow> world \<Rightarrow> error + pystr" where
  "read_file name w =
     (case files w name of None \<Rightarrow> Inl FileNotFoundError
      | Some c \<Rightarrow> Inr (universal_newlines c))"

definition write_file :: "string \<Rightarrow> pystr \<Rightarrow> world \<Rightarrow> world" where
  "write_file name c w = w\<lparr>files := (files w)(name \<mapsto> c), trace := trace w @ [Write name c]\<rparr>"

definition stdout :: "pystr \<Rightarrow> world \<Rightarrow> world" where
  "stdout text w = w\<lparr>trace := trace w @ [Stdout text]\<rparr>"

text \<open>
  What \<^verbatim>\<open>tomllib.load\<close> and \<^verbatim>\<open>json.load\<close> return: a string, a dictionary in the order of
  its keys, or any other value, which the script never looks into. The parsers and the
  serializer belong to Python's library and are parameters of the model:
  \<open>toml_load\<close> takes what is in the file, \<open>json_load\<close> the text read from it, and
  \<open>json_dump\<close> gives the text of \<^verbatim>\<open>json.dump(data, f, indent=2)\<close>.
\<close>

datatype 'a pyobj = PStr pystr | PDict "(pystr \<times> 'a pyobj) list" | POther 'a

definition load_version_from_toml ::
  "(pystr \<Rightarrow> error + 'a pyobj) \<Rightarrow> world \<Rightarrow> error + (pystr \<times> pystr)" where
  "load_version_from_toml toml_load w =
     (case read_binary ''Cargo.toml'' w of Inl e \<Rightarrow> Inl e | Inr bytes \<Rightarrow>
      (case toml_load bytes of Inl e \<Rightarrow> Inl e | Inr data \<Rightarrow>
       (case read_file ''Cargo.toml'' w of Inl e \<Rightarrow> Inl e | Inr content \<Rightarrow>
        (case data of
           PDict d \<Rightarrow>
             (case map_of d (py ''package'') of
                Some (PDict p) \<Rightarrow>
                  (case map_of p (py ''version'') of
                     Some (PStr v) \<Rightarrow> Inr (v, content)
                   | _ \<Rightarrow> Inl AssertionError)
              | _ \<Rightarrow> Inl AssertionError)
         | _ \<Rightarrow> Inl AssertionError))))"

definition load_version_from_json ::
  "(pystr \<Rightarrow> error + 'a pyobj) \<Rightarrow> world \<Rightarrow> error + (pystr \<times> (pystr \<times> 'a pyobj) list)" where
  "load_version_from_json json_load w =
     (case read_file ''package.json'' w of Inl e \<Rightarrow> Inl e | Inr text \<Rightarrow>
      (case json_load text of Inl e \<Rightarrow> Inl e | Inr data \<Rightarrow>
       (case data of
          PDict d \<Rightarrow>
            (case map_of d (py ''version'') of
               Some (PStr v) \<Rightarrow> Inr (v, d)
             | _ \<Rightarrow> Inl AssertionError)
        | _ \<Rightarrow> Inl AssertionError)))"

text \<open>
  The JSON writer changes the dictionary of its caller in place, so the model returns the
  dictionary with the world. Assigning to a key keeps the place of a key that is there and
  appends a new one, as \<^const>\<open>AList.update\<close> does.
\<close>

definition new_version_to_json ::
  "('a pyobj \<Rightarrow> pystr) \<Rightarrow> (pystr \<times> 'a pyobj) list \<Rightarrow> pystr \<Rightarrow> world
     \<Rightarrow> (pystr \<times> 'a pyobj) list \<times> world" where
  "new_version_to_json json_dump data new_version w =
     (let data' = AList.update (py ''version'') (PStr new_version) data
      in (data', write_file ''package.json'' (json_dump (PDict data')) w))"

text \<open>The TOML writer writes nothing when \<^verbatim>\<open>re.sub\<close> raises.\<close>

definition new_version_to_toml ::
  "(pystr \<Rightarrow> pystr \<Rightarrow> error + pystr) \<Rightarrow> unicode \<Rightarrow> pystr \<Rightarrow> pystr \<Rightarrow> world
     \<Rightarrow> error + world" where
  "new_version_to_toml re_escaped U content new_version w =
     (case re_sub re_escaped U (py ''version = '' @ DQ @ new_version @ DQ) content of
        Inl e \<Rightarrow> Inl e
      | Inr content' \<Rightarrow> Inr (write_file ''Cargo.toml'' content' w))"

definition new_version_to_pre_install_js :: "pystr \<Rightarrow> pystr \<Rightarrow> world \<Rightarrow> error + world" where
  "new_version_to_pre_install_js old_version new_version w =
     (case read_file ''pre-install.js'' w of Inl e \<Rightarrow> Inl e | Inr content \<Rightarrow>
      (let old_v_log = py ''Installing and compiling rag-rs '' @ old_version;
           old_v_install = py ''cargo install rag-rs --vers '' @ old_version;
           new_v_log = py ''Installing and compiling rag-rs '' @ new_version;
           new_v_install = py ''cargo install rag-rs --vers '' @ new_version
       in Inr (write_file ''pre-install.js''
                 (str_replace old_v_install new_v_install
                    (str_replace old_v_log new_v_log content)) w)))"

subsection \<open>The driver\<close>

datatype outcome = Exit int | Uncaught error

text \<open>
  Standard input is the list of the lines still to be read; \<^verbatim>\<open>input\<close> writes its prompt
  and raises \<^verbatim>\<open>EOFError\<close> when no line is left. The loop of \<^verbatim>\<open>main\<close> reads one line each
  time round, so it is a recursion on that list.
\<close>

fun prompt_loop ::
  "(pystr \<Rightarrow> pystr \<Rightarrow> error + pystr) \<Rightarrow> unicode \<Rightarrow> ('a pyobj \<Rightarrow> pystr) \<Rightarrow> Version \<Rightarrow> pystr
     \<Rightarrow> (pystr \<times> 'a pyobj) list \<Rightarrow> pystr \<Rightarrow> world \<Rightarrow> pystr list \<Rightarrow> outcome \<times> world" where
  "prompt_loop re_escaped U json_dump semv_rust v_rust json_data toml_content w [] =
     (Uncaught EOFError,
      stdout (py ''What type of bump do you want to perform? [major/minor/patch] '') w)"
| "prompt_loop re_escaped U json_dump semv_rust v_rust json_data toml_content w (line # rest) =
     (let w1 = stdout (py ''What type of bump do you want to perform? [major/minor/patch] '') w;
          bump_type = strip U (lower U line)
      in if bump_type \<notin> set [py ''major'', py ''minor'', py ''patch'']
         then prompt_loop re_escaped U json_dump semv_rust v_rust json_data toml_content
                (stdout (py ''Please provide a valid version bump (major, minor or patch)''
                           @ NL) w1) rest
         else (let new_ver = bump_semver semv_rust bump_type;
                   (json_data', w2) = new_version_to_json json_dump json_data new_ver w1
               in case new_version_to_toml re_escaped U toml_content new_ver w2 of
                    Inl e \<Rightarrow> (Uncaught e, w2)
                  | Inr w3 \<Rightarrow>
                      (case new_version_to_pre_install_js v_rust new_ver w3 of
                         Inl e \<Rightarrow> (Uncaught e, w3)
                       | Inr w4 \<Rightarrow> (Exit 0, w4))))"

definition main ::
  "(pystr \<Rightarrow> pystr \<Rightarrow> error + pystr) \<Rightarrow> unicode \<Rightarrow> (pystr \<Rightarrow> error + 'a pyobj)
     \<Rightarrow> (pystr \<Rightarrow> error + 'a pyobj) \<Rightarrow> ('a pyobj \<Rightarrow> pystr)
     \<Rightarrow> world \<Rightarrow> pystr list \<Rightarrow> outcome \<times> world" where
  "main re_escaped U toml_load json_load json_dump w stdin =
     (case load_version_from_toml toml_load w of Inl e \<Rightarrow> (Uncaught e, w)
      | Inr (v_rust, toml_content) \<Rightarrow>
     (case load_version_from_json json_load w of Inl e \<Rightarrow> (Uncaught e, w)
      | Inr (v_js, json_data) \<Rightarrow>
     (case parse_semver U v_rust of Inl e \<Rightarrow> (Uncaught e, w)
      | Inr semv_rust \<Rightarrow>
     (case parse_semver U v_js of Inl e \<Rightarrow> (Uncaught e, w)
      | Inr semv_js \<Rightarrow>
        if \<not> compare_semver semv_rust semv_js then (Uncaught AssertionError, w)
        else prompt_loop re_escaped U json_dump semv_rust v_rust json_data toml_content
               w stdin))))"

subsection \<open>Example inputs\<close>

text \<open>
  Manifests and an installer script of version 1.2.3, the values of the parsers on these
  texts, and a serializer that writes the string fields of a dictionary. They are the
  concrete inputs at which the theorems below are instantiated. The excerpt of the
  character database has the Arabic-Indic digits (U+0660 to U+0669, decimals), the
  superscript four (U+2074, a digit that is not a decimal) and the em space (U+2003); the
  examples have no replacement template with a backslash, for which \<open>example_re_escaped\<close>
  stands.
\<close>

definition example_unicode :: unicode where
  "example_unicode =
     \<lparr>decimal_wide = (\<lambda>c. if 0x660 \<le> c \<and> c \<le> 0x669 then Some (c - 0x660) else None),
      digit_wide = (\<lambda>c. c = 0x2074),
      space_wide = (\<lambda>c. c = 0x2003),
      lower_wide = (\<lambda>s i. [s ! i])\<rparr>"

definition example_re_escaped :: "pystr \<Rightarrow> pystr \<Rightarrow> error + pystr" where
  "example_re_escaped repl content = Inl ReError"

definition example_cargo_toml :: pystr where
  "example_cargo_toml =
     py ''[package]'' @ NL @ py ''name = '' @ DQ @ py ''rag-rs'' @ DQ @ NL
       @ py ''version = '' @ DQ @ py ''1.2.3'' @ DQ @ NL"

definition example_package_json :: "pystr \<Rightarrow> pystr" where
  "example_package_json v =
     py ''{'' @ DQ @ py ''name'' @ DQ @ py '': '' @ DQ @ py ''rag-rs'' @ DQ @ py '', ''
       @ DQ @ py ''version'' @ DQ @ py '': '' @ DQ @ v @ DQ @ py ''}''"

definition example_pre_install_js :: pystr where
  "example_pre_install_js =
     py ''log(`Installing and compiling rag-rs 1.2.3`);'' @ NL
       @ py ''run(`cargo install rag-rs --vers 1.2.3 --locked`);'' @ NL"

definition example_toml_load :: "pystr \<Rightarrow> error + unit pyobj" where
  "example_toml_load bytes =
     (if bytes = example_cargo_toml
      then Inr (PDict [(py ''package'',
                        PDict [(py ''name'', PStr (py ''rag-rs'')),
                               (py ''version'', PStr (py ''1.2.3''))])])
      else Inl DecodeError)"

definition example_json_load :: "pystr \<Rightarrow> error + unit pyobj" where
  "example_json_load text =
     (if text = example_package_json (py ''1.2.3'')
      then Inr (PDict [(py ''name'', PStr (py ''rag-rs'')), (py ''version'', PStr (py ''1.2.3''))])
      else if text = example_package_json (py ''1.2.4'')
      then Inr (PDict [(py ''name'', PStr (py ''rag-rs'')), (py ''version'', PStr (py ''1.2.4''))])
      else Inl DecodeError)"

fun example_json_dump :: "unit pyobj \<Rightarrow> pystr" where
  "example_json_dump (PDict [(k1, PStr v1), (k2, PStr v2)]) =
     py ''{'' @ DQ @ k1 @ DQ @ py '': '' @ DQ @ v1 @ DQ @ py '', ''
       @ DQ @ k2 @ DQ @ py '': '' @ DQ @ v2 @ DQ @ py ''}''"
| "example_json_dump _ = py ''null''"

definition example_world :: "pystr \<Rightarrow> world" where
  "example_world v =
     \<lparr>files = [''Cargo.toml'' \<mapsto> example_cargo_toml,
               ''package.json'' \<mapsto> example_package_json v,
               ''pre-install.js'' \<mapsto> example_pre_install_js],
      trace = []\<rparr>"

definition example_cargo_toml_dependency_first :: pystr where
  "example_cargo_toml_dependency_first =
     py ''[dependencies.serde]'' @ NL @ py ''version = '' @ DQ @ py ''1.0'' @ DQ @ NL
       @ py ''[package]'' @ NL @ py ''name = '' @ DQ @ py ''rag-rs'' @ DQ @ NL
       @ py ''version = '' @ DQ @ py ''1.2.3'' @ DQ @ NL"

definition example_crlf_script :: pystr where
  "example_crlf_script = py ''run(`cargo build`);'' @ [0x0D, 0x0A]"

definition example_crlf_world :: world where
  "example_crlf_world = \<lparr>files = [''pre-install.js'' \<mapsto> example_crlf_script], trace = []\<rparr>"

text \<open>What a writer that has returned left in a file; nothing when it raised.\<close>

definition written :: "string \<Rightarrow> error + world \<Rightarrow> pystr option" where
  "written name r = (case r of Inl e \<Rightarrow> None | Inr w \<Rightarrow> files w name)"

subsection \<open>The pattern of the TOML writer, stated and as the specification words it\<close>

text \<open>
  The language of \<^verbatim>\<open>version\s*=\s*"[^"]+"\<close>, and a match of the whole pattern in a text
  cut in three: the part before ends a line (or is empty), the part after starts with a
  newline (or is empty).
\<close>

definition version_assignment :: "unicode \<Rightarrow> pystr \<Rightarrow> bool" where
  "version_assignment U m \<longleftrightarrow>
     (\<exists>ws1 ws2 q. m = py ''version'' @ ws1 @ py ''='' @ ws2 @ DQ @ q @ DQ
        \<and> list_all (isspace_char U) ws1 \<and> list_all (isspace_char U) ws2
        \<and> q \<noteq> [] \<and> 0x22 \<notin> set q)"

definition line_match :: "unicode \<Rightarrow> pystr \<Rightarrow> pystr \<Rightarrow> pystr \<Rightarrow> bool" where
  "line_match U pre m post \<longleftrightarrow>
     (pre = [] \<or> last pre = 0x0A) \<and> version_assignment U m
     \<and> (post = [] \<or> hd post = 0x0A)"

text \<open>Whether the search of \<open>re_sub_from\<close> finds a match at position \<open>j\<close> of a text.\<close>

definition matches_at :: "unicode \<Rightarrow> pystr \<Rightarrow> nat \<Rightarrow> bool" where
  "matches_at U content j \<longleftrightarrow>
     (j = 0 \<or> content ! (j - 1) = 0x0A) \<and> match_version_line U (drop j content) \<noteq> None"

text \<open>
  The writer as the specification describes it, for comparison with the code: the first
  line that is \<^verbatim>\<open>version = "<old>"\<close> becomes \<^verbatim>\<open>version = "<new>"\<close>, every other line is
  kept, and a text with no such line is unchanged.
\<close>

fun spec_replace_first_line :: "pystr \<Rightarrow> pystr \<Rightarrow> pystr list \<Rightarrow> pystr list" where
  "spec_replace_first_line old_line new_line [] = []"
| "spec_replace_first_line old_line new_line (l # ls) =
     (if l = old_line then new_line # ls
      else l # spec_replace_first_line old_line new_line ls)"

fun spec_join_lines :: "pystr list \<Rightarrow> pystr" where
  "spec_join_lines [] = []"
| "spec_join_lines [l] = l"
| "spec_join_lines (l # ls) = l @ NL @ spec_join_lines ls"

definition spec_toml_writer :: "pystr \<Rightarrow> pystr \<Rightarrow> pystr \<Rightarrow> pystr" where
  "spec_toml_writer old_version new_version content =
     spec_join_lines
       (spec_replace_first_line (py ''version = '' @ DQ @ old_version @ DQ)
          (py ''version = '' @ DQ @ new_version @ DQ) (split 0x0A content))"

subsection \<open>The occurrences of a substring\<close>

text \<open>
  A text cut at the occurrences of \<open>old\<close> that \<^verbatim>\<open>replace\<close> finds, which are the leftmost
  ones that do not overlap: \<open>cuts old cs s\<close> says that \<open>s\<close> is the pieces \<open>cs\<close> with \<open>old\<close>
  between them, that no occurrence of \<open>old\<close> starts inside a piece that is followed by
  one, and that the last piece has none.
\<close>

fun join_with :: "'a list \<Rightarrow> 'a list list \<Rightarrow> 'a list" where
  "join_with sep [] = []"
| "join_with sep [c] = c"
| "join_with sep (c # cs) = c @ sep @ join_with sep cs"

definition cuts :: "'a list \<Rightarrow> 'a list list \<Rightarrow> 'a list \<Rightarrow> bool" where
  "cuts old cs s \<longleftrightarrow>
     cs \<noteq> [] \<and> s = join_with old cs
     \<and> (\<forall>c \<in> set (butlast cs). \<not> sublist old (c @ butlast old))
     \<and> \<not> sublist old (last cs)"

section \<open>Properties\<close>

subsection \<open>Digits, conversions and splitting\<close>

lemma isdecimal_digit_char: "d < 10 \<Longrightarrow> isdecimal_char U (digit_char d)"
  by (simp add: isdecimal_char_def digit_char_def)

lemma digit_val_digit_char: "d < 10 \<Longrightarrow> digit_val U (digit_char d) = int d"
  by (simp add: digit_val_def digit_char_def)

lemma isdecimal_not_dot: "isdecimal_char U c \<Longrightarrow> c \<noteq> 0x2E"
  by (auto simp: isdecimal_char_def split: if_splits)

lemma isdecimal_isdigit: "isdecimal_char U c \<Longrightarrow> isdigit_char U c"
  by (simp add: isdigit_char_def)

lemma str_nat_not_Nil: "str_nat n \<noteq> []"
  by (subst str_nat.simps) simp

lemma str_nat_chars: "c \<in> set (str_nat n) \<Longrightarrow> 48 \<le> c \<and> c \<le> 57"
proof (induction n rule: str_nat.induct)
  case (1 n)
  show ?case
  proof (cases "n < 10")
    case True
    with "1.prems" show ?thesis
      by (subst (asm) str_nat.simps) (simp add: digit_char_def)
  next
    case False
    with "1.prems" have "c \<in> set (str_nat (n div 10)) \<or> c = digit_char (n mod 10)"
      by (subst (asm) str_nat.simps) auto
    then show ?thesis
      using "1.IH" [OF False] by (auto simp: digit_char_def)
  qed
qed

lemma str_nat_decimal: "list_all (isdecimal_char U) (str_nat n)"
  using str_nat_chars [of _ n] by (fastforce simp: list_all_iff isdecimal_char_def)

lemma value_str_nat: "foldl (\<lambda>acc c. 10 * acc + digit_val U c) 0 (str_nat n) = int n"
proof (induction n rule: str_nat.induct)
  case (1 n)
  show ?case
  proof (cases "n < 10")
    case True
    then show ?thesis by (subst str_nat.simps) (simp add: digit_val_digit_char)
  next
    case False
    then have "foldl (\<lambda>acc c. 10 * acc + digit_val U c) 0 (str_nat (n div 10)) = int (n div 10)"
      using 1 by simp
    then have "foldl (\<lambda>acc c. 10 * acc + digit_val U c) 0 (str_nat n)
        = 10 * int (n div 10) + int (n mod 10)"
      using False by (subst str_nat.simps) (simp add: digit_val_digit_char)
    also have "\<dots> = int n" by (simp add: zmod_int zdiv_int)
    finally show ?thesis .
  qed
qed

lemma py_int_str_nat: "py_int U (str_nat n) = Inr (int n)"
  by (simp add: py_int_def str_nat_not_Nil str_nat_decimal value_str_nat)

lemma isdigit_str_nat: "isdigit U (str_nat n)"
  using str_nat_decimal [of U n]
  by (auto simp: isdigit_def str_nat_not_Nil list_all_iff isdecimal_isdigit)

lemma dot_notin_str_nat: "0x2E \<notin> set (str_nat n)"
  using str_nat_chars [of "0x2E" n] by auto

lemma split_not_Nil: "split sep s \<noteq> []"
  by (induction s) (auto split: list.splits)

lemma split_no_sep: "sep \<notin> set s \<Longrightarrow> split sep s = [s]"
  by (induction s) auto

lemma split_append_sep: "sep \<notin> set a \<Longrightarrow> split sep (a @ sep # b) = a # split sep b"
  by (induction a) auto

lemma split_triple:
  assumes "sep \<notin> set a" "sep \<notin> set b" "sep \<notin> set c"
  shows "split sep (a @ sep # b @ sep # c) = [a, b, c]"
  using assms by (simp add: split_append_sep split_no_sep)

lemma parse_semver_triple:
  "parse_semver U (str_nat a @ py ''.'' @ str_nat b @ py ''.'' @ str_nat c)
     = Inr \<lparr>major = int a, minor = int b, patch = int c\<rparr>"
  using split_triple [of "0x2E" "str_nat a" "str_nat b" "str_nat c"]
  by (simp add: parse_semver_def py_def dot_notin_str_nat isdigit_str_nat py_int_str_nat)

lemma length3_cases: "length xs = 3 \<Longrightarrow> \<exists>a b c. xs = [a, b, c]"
  by (auto simp: numeral_3_eq_3 length_Suc_conv)

lemma set_split: "set s \<subseteq> insert sep (\<Union>seg \<in> set (split sep s). set seg)"
proof (induction s)
  case Nil
  then show ?case by simp
next
  case (Cons c cs)
  obtain x xs where sp: "split sep cs = x # xs"
    using split_not_Nil [of sep cs] by (cases "split sep cs") auto
  with Cons show ?case by auto
qed

lemma split_has_char:
  assumes "c \<in> set s" "c \<noteq> sep"
  shows "\<exists>seg \<in> set (split sep s). c \<in> set seg"
  using set_split [of s sep] assms by auto

lemma parse_semver_assertion_iff:
  "parse_semver U s = Inl AssertionError \<longleftrightarrow>
     length (split 0x2E s) \<noteq> 3 \<or> \<not> list_all (isdigit U) (split 0x2E s)"
proof (cases "length (split 0x2E s) = 3")
  case False
  then show ?thesis by (simp add: parse_semver_def Let_def)
next
  case True
  then obtain a b c where sp: "split 0x2E s = [a, b, c]"
    using length3_cases by blast
  show ?thesis
    by (auto simp: parse_semver_def Let_def sp py_int_def split: if_splits)
qed

lemma not_all_isdigit_iff:
  "\<not> list_all (isdigit U) segs \<longleftrightarrow>
     (\<exists>seg \<in> set segs. seg = [] \<or> (\<exists>c \<in> set seg. \<not> isdigit_char U c))"
  by (auto simp: list_all_iff isdigit_def)

lemma parse_semver_has_char:
  assumes "c \<in> set s" "c \<noteq> 0x2E" "\<not> isdigit_char U c"
  shows "parse_semver U s = Inl AssertionError"
proof -
  from split_has_char [OF assms(1,2)] obtain seg
    where "seg \<in> set (split 0x2E s)" "c \<in> set seg" by blast
  with assms(3) have "\<not> list_all (isdigit U) (split 0x2E s)"
    unfolding not_all_isdigit_iff by blast
  then show ?thesis by (simp add: parse_semver_assertion_iff)
qed

lemma not_isdigit_minus_plus: "\<not> isdigit_char U 0x2D" "\<not> isdigit_char U 0x2B"
  by (simp_all add: isdigit_char_def isdecimal_char_def)

lemma parse_semver_succeeds_iff:
  "(\<exists>v. parse_semver U s = Inr v) \<longleftrightarrow>
     length (split 0x2E s) = 3
     \<and> (\<forall>seg \<in> set (split 0x2E s). seg \<noteq> [] \<and> list_all (isdecimal_char U) seg)"
proof (cases "length (split 0x2E s) = 3")
  case False
  then show ?thesis by (simp add: parse_semver_def Let_def)
next
  case True
  then obtain a b c where sp: "split 0x2E s = [a, b, c]"
    using length3_cases by blast
  show ?thesis
    by (auto simp: parse_semver_def Let_def sp py_int_def isdigit_def list_all_iff
        isdecimal_isdigit split: if_splits)
qed

lemma parse_semver_value_error_iff:
  "parse_semver U s = Inl ValueError \<longleftrightarrow>
     length (split 0x2E s) = 3 \<and> list_all (isdigit U) (split 0x2E s)
     \<and> (\<exists>seg \<in> set (split 0x2E s). \<exists>c \<in> set seg. \<not> isdecimal_char U c)"
proof (cases "length (split 0x2E s) = 3")
  case False
  then show ?thesis by (simp add: parse_semver_def Let_def)
next
  case True
  then obtain a b c where sp: "split 0x2E s = [a, b, c]"
    using length3_cases by blast
  show ?thesis
    by (auto simp: parse_semver_def Let_def sp py_int_def isdigit_def list_all_iff
        split: if_splits)
qed

text \<open>The strings the bumper returns have no backslash.\<close>

lemma str_int_chars: "c \<in> set (str_int i) \<Longrightarrow> (48 \<le> c \<and> c \<le> 57) \<or> c = 0x2D"
  using str_nat_chars by (auto simp: str_int_def split: if_splits)

lemma semver_to_str_no_backslash: "0x5C \<notin> set (semver_to_str v)"
proof
  assume "0x5C \<in> set (semver_to_str v)"
  then have "\<exists>i. 0x5C \<in> set (str_int i)"
    by (auto simp: semver_to_str_def py_def)
  then obtain i where "0x5C \<in> set (str_int i)" ..
  then have "(48 \<le> (0x5C::nat) \<and> (0x5C::nat) \<le> 57) \<or> (0x5C::nat) = 0x2D"
    by (rule str_int_chars)
  then show False by simp
qed

lemma bump_semver_no_backslash: "0x5C \<notin> set (bump_semver v bump_type)"
  by (simp add: bump_semver_def semver_to_str_no_backslash)

subsection \<open>The loop of the driver and the example inputs\<close>

lemma main_validated:
  assumes "load_version_from_toml toml_load w = Inr (v_rust, toml_content)"
    and "load_version_from_json json_load w = Inr (v_js, json_data)"
    and "parse_semver U v_rust = Inr semv_rust"
    and "parse_semver U v_js = Inr semv_js"
  shows "main re_escaped U toml_load json_load json_dump w stdin =
     (if compare_semver semv_rust semv_js
      then prompt_loop re_escaped U json_dump semv_rust v_rust json_data toml_content w stdin
      else (Uncaught AssertionError, w))"
  using assms by (simp add: main_def)

lemma prompt_loop_invalid:
  "\<forall>l \<in> set bad. strip U (lower U l) \<notin> set [py ''major'', py ''minor'', py ''patch''] \<Longrightarrow>
   prompt_loop re_escaped U json_dump sv vr jdata tc w (bad @ rest)
     = prompt_loop re_escaped U json_dump sv vr jdata tc
         (w\<lparr>trace := trace w @ concat (map (\<lambda>l.
            [Stdout (py ''What type of bump do you want to perform? [major/minor/patch] ''),
             Stdout (py ''Please provide a valid version bump (major, minor or patch)'' @ NL)])
            bad)\<rparr>) rest"
proof (induction bad arbitrary: w)
  case Nil
  then show ?case by simp
next
  case (Cons l bad)
  then show ?case by (simp add: stdout_def Let_def)
qed

lemma new_version_to_toml_literal:
  "0x5C \<notin> set new_version \<Longrightarrow>
   new_version_to_toml re_escaped U content new_version w
     = Inr (write_file ''Cargo.toml''
              (re_sub_version_line U (py ''version = '' @ DQ @ new_version @ DQ) content) w)"
  by (simp add: new_version_to_toml_def re_sub_def py_def)

lemma prompt_loop_valid:
  assumes "strip U (lower U line) \<in> set [py ''major'', py ''minor'', py ''patch'']"
    and "files w ''pre-install.js'' = Some js"
  shows "prompt_loop re_escaped U json_dump sv vr jdata tc w (line # rest) =
     (let new_ver = bump_semver sv (strip U (lower U line));
          x = json_dump (PDict (AList.update (py ''version'') (PStr new_ver) jdata));
          y = re_sub_version_line U (py ''version = '' @ DQ @ new_ver @ DQ) tc;
          z = str_replace (py ''cargo install rag-rs --vers '' @ vr)
                (py ''cargo install rag-rs --vers '' @ new_ver)
                (str_replace (py ''Installing and compiling rag-rs '' @ vr)
                   (py ''Installing and compiling rag-rs '' @ new_ver)
                   (universal_newlines js))
      in (Exit 0,
          w\<lparr>files := (files w)(''package.json'' \<mapsto> x, ''Cargo.toml'' \<mapsto> y,
                                ''pre-install.js'' \<mapsto> z),
            trace := trace w @
              [Stdout (py ''What type of bump do you want to perform? [major/minor/patch] ''),
               Write ''package.json'' x, Write ''Cargo.toml'' y, Write ''pre-install.js'' z]\<rparr>))"
proof -
  have v: "(strip U (lower U line) \<notin> set [py ''major'', py ''minor'', py ''patch'']) = False"
    using assms(1) by blast
  show ?thesis
    unfolding prompt_loop.simps Let_def v
      new_version_to_toml_literal [OF bump_semver_no_backslash]
    using assms(2)
    by (simp add: new_version_to_json_def Let_def
        new_version_to_pre_install_js_def read_file_def write_file_def stdout_def)
qed

lemma lower_from_latin1:
  "list_all (\<lambda>c. c < 256) cs \<Longrightarrow> lower_from U s i cs = map lower_char cs"
  by (induction cs arbitrary: i) simp_all

lemma lower_latin1: "list_all (\<lambda>c. c < 256) s \<Longrightarrow> lower U s = map lower_char s"
  by (simp add: lower_def lower_from_latin1)

lemma lower_char_space: "c < 256 \<Longrightarrow> isspace_char U c \<Longrightarrow> lower_char c = c"
  by (auto simp: isspace_char_def lower_char_def)

lemma lower_char_spaces:
  "list_all (\<lambda>c. c < 256 \<and> isspace_char U c) s \<Longrightarrow> map lower_char s = s"
  by (induction s) (auto simp: lower_char_space)

lemma strip_padded:
  assumes "list_all (isspace_char U) a" "list_all (isspace_char U) b"
    and "k \<noteq> []" "\<not> isspace_char U (hd k)" "\<not> isspace_char U (last k)"
  shows "strip U (a @ k @ b) = k"
proof -
  from assms(3) obtain x xs where k: "k = x # xs" by (cases k) auto
  have "dropWhile (isspace_char U) (a @ k @ b) = dropWhile (isspace_char U) (k @ b)"
    using assms(1) by (simp add: dropWhile_append2 list_all_iff)
  also have "\<dots> = k @ b" using assms(4) k by simp
  finally have 1: "dropWhile (isspace_char U) (a @ k @ b) = k @ b" .
  have "dropWhile (isspace_char U) (rev (k @ b)) = dropWhile (isspace_char U) (rev k)"
    using assms(2) dropWhile_append2 [of "rev b" "isspace_char U" "rev k"]
    by (simp add: list_all_iff)
  also have "\<dots> = rev k"
    using assms(3,5) by (cases "rev k") (auto simp: hd_rev [symmetric])
  finally show ?thesis by (simp add: strip_def 1)
qed

lemma kinds_not_space:
  assumes "kind \<in> set [py ''major'', py ''minor'', py ''patch'']"
  shows "kind \<noteq> [] \<and> \<not> isspace_char U (hd kind) \<and> \<not> isspace_char U (last kind)"
  using assms by (auto simp: isspace_char_def py_def)

lemma strip_lower_padded:
  assumes "list_all (\<lambda>c. c < 256 \<and> isspace_char U c) a"
    and "list_all (\<lambda>c. c < 256 \<and> isspace_char U c) b"
    and "list_all (\<lambda>c. c < 256) word" "lower U word = kind"
    and "kind \<in> set [py ''major'', py ''minor'', py ''patch'']"
  shows "strip U (lower U (a @ word @ b)) = kind"
proof -
  have l: "list_all (\<lambda>c. c < 256) (a @ word @ b)"
    using assms(1,2,3) by (auto simp: list_all_iff)
  have "lower U (a @ word @ b) = map lower_char a @ map lower_char word @ map lower_char b"
    using lower_latin1 [OF l] by simp
  also have "\<dots> = a @ kind @ b"
    using assms(1,2,4) lower_latin1 [OF assms(3)] by (simp add: lower_char_spaces)
  finally have "lower U (a @ word @ b) = a @ kind @ b" .
  moreover have "list_all (isspace_char U) a" "list_all (isspace_char U) b"
    using assms(1,2) by (auto simp: list_all_iff)
  ultimately show ?thesis
    using strip_padded [of U a b kind] kinds_not_space [OF assms(5)] by simp
qed

lemma strip_lower_kind:
  assumes "kind \<in> set [py ''major'', py ''minor'', py ''patch'']"
  shows "strip U (lower U kind) = kind"
proof -
  have 1: "list_all (\<lambda>c. c < 256) kind" "map lower_char kind = kind"
    using assms by (auto simp: py_def lower_char_def)
  then have "lower U kind = kind" by (simp add: lower_latin1)
  then show ?thesis
    using strip_lower_padded [of U "[]" "[]" kind kind] 1 assms by simp
qed

lemma example_loads:
  "load_version_from_toml example_toml_load (example_world v)
     = Inr (py ''1.2.3'', example_cargo_toml)"
  "load_version_from_json example_json_load (example_world (py ''1.2.3''))
     = Inr (py ''1.2.3'',
            [(py ''name'', PStr (py ''rag-rs'')), (py ''version'', PStr (py ''1.2.3''))])"
  "load_version_from_json example_json_load (example_world (py ''1.2.4''))
     = Inr (py ''1.2.4'',
            [(py ''name'', PStr (py ''rag-rs'')), (py ''version'', PStr (py ''1.2.4''))])"
  "files (example_world v) ''pre-install.js'' = Some example_pre_install_js"
  by (simp_all add: load_version_from_toml_def load_version_from_json_def read_file_def
      read_binary_def example_world_def example_toml_load_def example_json_load_def
      example_package_json_def example_cargo_toml_def py_def)

lemma example_parses:
  "parse_semver U (py ''1.2.3'') = Inr \<lparr>major = 1, minor = 2, patch = 3\<rparr>"
  "parse_semver U (py ''1.2.4'') = Inr \<lparr>major = 1, minor = 2, patch = 4\<rparr>"
  by (simp_all add: parse_semver_def py_def isdigit_def isdigit_char_def isdecimal_char_def
      py_int_def digit_val_def)

lemma example_foo:
  "py ''foo'' \<noteq> py ''major''" "py ''foo'' \<noteq> py ''minor''" "py ''foo'' \<noteq> py ''patch''"
  by (simp_all add: py_def)

lemma example_normalized:
  "strip U (lower U (py ''foo'')) = py ''foo''"
  "strip U (lower U (py '' Minor'')) = py ''minor''"
  by (simp_all add: strip_def lower_def lower_char_def isspace_char_def py_def)

subsection \<open>The substitutions\<close>

lemma not_space_eq_dq: "\<not> isspace_char U 0x3D" "\<not> isspace_char U 0x22"
  by (simp_all add: isspace_char_def)

lemma match_version_line_complete:
  assumes "list_all (isspace_char U) ws1" "list_all (isspace_char U) ws2" "q \<noteq> []"
    and "0x22 \<notin> set q" "post = [] \<or> hd post = 0x0A"
  shows "match_version_line U (py ''version'' @ ws1 @ py ''='' @ ws2 @ DQ @ q @ DQ @ post) = Some post"
proof -
  have 1: "dropWhile (isspace_char U) (ws1 @ 0x3D # r) = 0x3D # r" for r
    using assms(1) by (simp add: dropWhile_append2 list_all_iff not_space_eq_dq)
  have 2: "dropWhile (isspace_char U) (ws2 @ 0x22 # r) = 0x22 # r" for r
    using assms(2) by (simp add: dropWhile_append2 list_all_iff not_space_eq_dq)
  have 3: "takeWhile (\<lambda>c. c \<noteq> 0x22) (q @ 0x22 # r) = q" for r
  proof -
    have "\<And>x. x \<in> set q \<Longrightarrow> x \<noteq> 0x22" using assms(4) by auto
    then show ?thesis by (simp add: takeWhile_tail)
  qed
  have 4: "dropWhile (\<lambda>c. c \<noteq> 0x22) (q @ 0x22 # r) = 0x22 # r" for r
  proof -
    have "\<And>x. x \<in> set q \<Longrightarrow> x \<noteq> 0x22" using assms(4) by auto
    then show ?thesis by (simp add: dropWhile_append2)
  qed
  show ?thesis
    using assms(3,5) by (simp add: match_version_line_def py_def 1 2 3 4)
qed

lemma match_version_line_sound:
  assumes "match_version_line U s = Some post"
  shows "\<exists>m. s = m @ post \<and> version_assignment U m \<and> (post = [] \<or> hd post = 0x0A)"
proof -
  define r0 where "r0 = drop 7 s"
  from assms have v: "take 7 s = py ''version''"
    by (auto simp: match_version_line_def py_def split: if_splits)
  then have s: "s = py ''version'' @ r0"
    unfolding r0_def by (metis append_take_drop_id)
  from assms v obtain r1 where r1: "dropWhile (isspace_char U) r0 = 0x3D # r1"
    unfolding r0_def by (auto simp: match_version_line_def py_def split: if_splits list.splits)
  from assms v r1 obtain r2 where r2: "dropWhile (isspace_char U) r1 = 0x22 # r2"
    unfolding r0_def by (auto simp: match_version_line_def py_def split: if_splits list.splits)
  from assms v r1 r2 have q: "takeWhile (\<lambda>c. c \<noteq> 0x22) r2 \<noteq> []"
    unfolding r0_def by (auto simp: match_version_line_def py_def split: if_splits list.splits)
  from assms v r1 r2 q obtain q' where r3: "dropWhile (\<lambda>c. c \<noteq> 0x22) r2 = q' # post"
    and e: "post = [] \<or> hd post = 0x0A"
    unfolding r0_def by (auto simp: match_version_line_def py_def split: if_splits list.splits)
  have "\<not> (hd (dropWhile (\<lambda>c. c \<noteq> 0x22) r2) \<noteq> 0x22)"
    using r3 hd_dropWhile [of "\<lambda>c. c \<noteq> 0x22" r2] by simp
  with r3 have q': "q' = 0x22" by simp
  let ?ws1 = "takeWhile (isspace_char U) r0"
  let ?ws2 = "takeWhile (isspace_char U) r1"
  let ?q = "takeWhile (\<lambda>c. c \<noteq> 0x22) r2"
  have "r0 = ?ws1 @ 0x3D # r1"
    using r1 takeWhile_dropWhile_id [of "isspace_char U" r0] by simp
  moreover have "r1 = ?ws2 @ 0x22 # r2"
    using r2 takeWhile_dropWhile_id [of "isspace_char U" r1] by simp
  moreover have "r2 = ?q @ 0x22 # post"
    using r3 q' takeWhile_dropWhile_id [of "\<lambda>c. c \<noteq> 0x22" r2] by simp
  moreover have "py ''='' = [0x3D]" by (simp add: py_def)
  ultimately have "s = (py ''version'' @ ?ws1 @ py ''='' @ ?ws2 @ DQ @ ?q @ DQ) @ post"
    using s by simp
  moreover have "list_all (isspace_char U) ?ws1" "list_all (isspace_char U) ?ws2"
    by (auto simp: list_all_iff dest: set_takeWhileD)
  moreover have "0x22 \<notin> set ?q"
    by (auto dest: set_takeWhileD)
  ultimately have "s = (py ''version'' @ ?ws1 @ py ''='' @ ?ws2 @ DQ @ ?q @ DQ) @ post
      \<and> version_assignment U (py ''version'' @ ?ws1 @ py ''='' @ ?ws2 @ DQ @ ?q @ DQ)"
    using q unfolding version_assignment_def by blast
  with e show ?thesis by blast
qed


lemma match_version_line_Nil: "match_version_line U [] = None"
  by (simp add: match_version_line_def py_def)

lemma re_sub_from_none:
  "\<forall>j < length s. \<not> ((if j = 0 then bol else s ! (j - 1) = 0x0A)
       \<and> match_version_line U (drop j s) \<noteq> None) \<Longrightarrow>
   re_sub_from U bol repl s = s"
proof (induction s arbitrary: bol)
  case Nil
  then show ?case by simp
next
  case (Cons c cs)
  from Cons.prems have 0: "\<not> (bol \<and> match_version_line U (c # cs) \<noteq> None)"
    by force
  have "\<forall>j < length cs. \<not> ((if j = 0 then c = 0x0A else cs ! (j - 1) = 0x0A)
       \<and> match_version_line U (drop j cs) \<noteq> None)"
  proof (intro allI impI)
    fix j assume "j < length cs"
    then have "\<not> ((c # cs) ! j = 0x0A \<and> match_version_line U (drop (Suc j) (c # cs)) \<noteq> None)"
      using Cons.prems [rule_format, of "Suc j"] by simp
    then show "\<not> ((if j = 0 then c = 0x0A else cs ! (j - 1) = 0x0A)
       \<and> match_version_line U (drop j cs) \<noteq> None)"
      by (cases j) auto
  qed
  then have "re_sub_from U (c = 0x0A) repl cs = cs" by (rule Cons.IH)
  with 0 show ?case by auto
qed

lemma re_sub_from_first:
  assumes "match_version_line U rest = Some post"
    and "if pre = [] then bol else last pre = 0x0A"
    and "\<forall>j < length pre. \<not> ((if j = 0 then bol else (pre @ rest) ! (j - 1) = 0x0A)
       \<and> match_version_line U (drop j (pre @ rest)) \<noteq> None)"
  shows "re_sub_from U bol repl (pre @ rest) = pre @ repl @ post"
  using assms(2,3)
proof (induction pre arbitrary: bol)
  case Nil
  from assms(1) obtain c cs where "rest = c # cs"
    by (cases rest) (auto simp: match_version_line_Nil)
  with Nil assms(1) show ?case by simp
next
  case (Cons c pre)
  from Cons.prems(2) have 0: "\<not> (bol \<and> match_version_line U (c # pre @ rest) \<noteq> None)"
    by force
  have 1: "if pre = [] then c = 0x0A else last pre = 0x0A"
    using Cons.prems(1) by (auto split: if_splits)
  have 2: "\<forall>j < length pre. \<not> ((if j = 0 then c = 0x0A else (pre @ rest) ! (j - 1) = 0x0A)
       \<and> match_version_line U (drop j (pre @ rest)) \<noteq> None)"
  proof (intro allI impI)
    fix j assume "j < length pre"
    then have "\<not> ((c # pre @ rest) ! j = 0x0A
        \<and> match_version_line U (drop (Suc j) (c # pre @ rest)) \<noteq> None)"
      using Cons.prems(2) [rule_format, of "Suc j"] by simp
    then show "\<not> ((if j = 0 then c = 0x0A else (pre @ rest) ! (j - 1) = 0x0A)
       \<and> match_version_line U (drop j (pre @ rest)) \<noteq> None)"
      by (cases j) auto
  qed
  have "re_sub_from U (c = 0x0A) repl (pre @ rest) = pre @ repl @ post"
    using Cons.IH [OF 1 2] .
  with 0 show ?case by auto
qed

lemma line_match_matches_at:
  assumes "content = pre @ m @ post" "line_match U pre m post"
  shows "matches_at U content (length pre)"
proof -
  from assms(2) obtain ws1 ws2 q where m: "m = py ''version'' @ ws1 @ py ''='' @ ws2 @ DQ @ q @ DQ"
    and c: "list_all (isspace_char U) ws1" "list_all (isspace_char U) ws2" "q \<noteq> []"
      "0x22 \<notin> set q" "post = [] \<or> hd post = 0x0A"
    unfolding line_match_def version_assignment_def by blast
  have "match_version_line U (m @ post) = Some post"
    using match_version_line_complete [OF c] by (simp add: m)
  then have "match_version_line U (drop (length pre) content) \<noteq> None"
    by (simp add: assms(1))
  moreover have "length pre = 0 \<or> content ! (length pre - 1) = 0x0A"
  proof (cases "pre = []")
    case True
    then show ?thesis by simp
  next
    case False
    then have "content ! (length pre - 1) = last pre"
      by (simp add: assms(1) nth_append last_conv_nth)
    with False assms(2) show ?thesis by (simp add: line_match_def)
  qed
  ultimately show ?thesis by (simp add: matches_at_def)
qed

lemma matches_at_line_match:
  assumes "matches_at U content j" "j \<le> length content"
  shows "\<exists>m post. content = take j content @ m @ post \<and> line_match U (take j content) m post"
proof -
  from assms(1) obtain post where p: "match_version_line U (drop j content) = Some post"
    by (auto simp: matches_at_def)
  then obtain m where m: "drop j content = m @ post" "version_assignment U m"
    "post = [] \<or> hd post = 0x0A"
    using match_version_line_sound by blast
  have "take j content = [] \<or> last (take j content) = 0x0A"
  proof (cases "j = 0")
    case True
    then show ?thesis by simp
  next
    case False
    then have "take j content \<noteq> []" "length (take j content) = j"
      using assms(2) by auto
    then have "last (take j content) = content ! (j - 1)"
      using False by (simp add: last_conv_nth)
    with False assms(1) show ?thesis by (simp add: matches_at_def)
  qed
  moreover have "content = take j content @ m @ post"
    using m(1) by (metis append_take_drop_id)
  ultimately show ?thesis using m(2,3) by (auto simp: line_match_def)
qed

lemma no_earlier_match:
  assumes "list_all (\<lambda>j. \<not> matches_at U content j) [0..<n]"
    and "content = pre @ m @ post" "line_match U pre m post"
  shows "n \<le> length pre"
proof (rule ccontr)
  assume "\<not> n \<le> length pre"
  then have "length pre \<in> set [0..<n]" by simp
  with assms(1) have "\<not> matches_at U content (length pre)" by (simp add: list_all_iff)
  then show False using line_match_matches_at [OF assms(2,3)] by simp
qed

lemma version_assignment_not_Nil: "version_assignment U m \<Longrightarrow> m \<noteq> []"
  by (auto simp: version_assignment_def)

lemma replace_from_absent: "\<not> sublist old s \<Longrightarrow> replace_from old new s = s"
proof (induction s)
  case Nil
  then show ?case by simp
next
  case (Cons c cs)
  then have "\<not> prefix old (c # cs)" "\<not> sublist old cs"
    by (auto simp: sublist_Cons_right)
  with Cons.IH show ?case by simp
qed

lemma prefix_append_short:
  assumes "prefix xs (ys @ zs)" "length xs \<le> length ys"
  shows "prefix xs ys"
  using assms by (auto simp: prefix_append)

lemma replace_from_first:
  assumes "old \<noteq> []" "\<not> sublist old (a @ butlast old)"
  shows "replace_from old new (a @ old @ b) = a @ new @ replace_from old new b"
  using assms(2)
proof (induction a)
  case Nil
  from assms(1) obtain x xs where old: "old = x # xs" by (cases old) auto
  show ?case by (simp add: old)
next
  case (Cons x a)
  have "\<not> prefix old (x # a @ old @ b)"
  proof
    assume p: "prefix old (x # a @ old @ b)"
    have "x # a @ old @ b = ((x # a) @ butlast old) @ (last old # b)"
      using assms(1) by simp
    moreover have "length old \<le> length ((x # a) @ butlast old)"
      by simp
    ultimately have "prefix old ((x # a) @ butlast old)"
      using p prefix_append_short by metis
    then show False using Cons.prems by auto
  qed
  moreover have "\<not> sublist old (a @ butlast old)"
    using Cons.prems by (auto simp: sublist_Cons_right)
  ultimately show ?case using Cons.IH by simp
qed

lemma replace_from_once:
  assumes "old \<noteq> []" "\<not> sublist old (a @ butlast old)" "\<not> sublist old b"
  shows "replace_from old new (a @ old @ b) = a @ new @ b"
  by (simp add: replace_from_first [OF assms(1,2)] replace_from_absent [OF assms(3)])

lemma join_with_Cons: "cs \<noteq> [] \<Longrightarrow> join_with sep (c # cs) = c @ sep @ join_with sep cs"
  by (cases cs) auto

lemma replace_from_cuts:
  assumes "old \<noteq> []"
  shows "cuts old cs s \<Longrightarrow> replace_from old new s = join_with new cs"
proof (induction cs arbitrary: s)
  case Nil
  then show ?case by (simp add: cuts_def)
next
  case (Cons c cs)
  show ?case
  proof (cases "cs = []")
    case True
    with Cons.prems show ?thesis by (simp add: cuts_def replace_from_absent)
  next
    case False
    from Cons.prems False have s: "s = c @ old @ join_with old cs"
      and c: "\<not> sublist old (c @ butlast old)"
      and rest: "cuts old cs (join_with old cs)"
      by (auto simp: cuts_def join_with_Cons)
    have "replace_from old new s = c @ new @ replace_from old new (join_with old cs)"
      unfolding s using replace_from_first [OF assms c] .
    also have "\<dots> = c @ new @ join_with new cs"
      using Cons.IH [OF rest] by simp
    finally show ?thesis using False by (simp add: join_with_Cons)
  qed
qed

lemma str_replace_nonempty: "old \<noteq> [] \<Longrightarrow> str_replace old new s = replace_from old new s"
  by (simp add: str_replace_def)

lemma str_replace_cuts:
  "old \<noteq> [] \<Longrightarrow> cuts old cs s \<Longrightarrow> str_replace old new s = join_with new cs"
  by (simp add: str_replace_def replace_from_cuts)

lemma leftmost_occurrence:
  assumes "old \<noteq> []"
  shows "sublist old s \<Longrightarrow> \<exists>a b. s = a @ old @ b \<and> \<not> sublist old (a @ butlast old)"
proof (induction s)
  case Nil
  with assms show ?case by simp
next
  case (Cons c cs)
  show ?case
  proof (cases "prefix old (c # cs)")
    case True
    then obtain b where "c # cs = [] @ old @ b" by (auto simp: prefix_def)
    moreover have "\<not> sublist old ([] @ butlast old)"
      using assms sublist_length_le [of old "butlast old"] by (cases old) auto
    ultimately show ?thesis by blast
  next
    case False
    with Cons.prems have "sublist old cs" by (simp add: sublist_Cons_right)
    then obtain a b where cs: "cs = a @ old @ b" and a: "\<not> sublist old (a @ butlast old)"
      using Cons.IH by blast
    have "\<not> prefix old (c # a @ butlast old)"
    proof
      assume "prefix old (c # a @ butlast old)"
      moreover have "prefix (c # a @ butlast old) (c # cs)"
        using assms by (simp add: cs) (metis append_butlast_last_id prefixI append.assoc)
      ultimately show False using False by (meson prefix_order.trans)
    qed
    with a have "\<not> sublist old ((c # a) @ butlast old)"
      by (simp add: sublist_Cons_right)
    moreover have "c # cs = (c # a) @ old @ b" by (simp add: cs)
    ultimately show ?thesis by blast
  qed
qed

lemma cuts_exist:
  assumes "old \<noteq> []"
  shows "\<exists>cs. cuts old cs s"
proof (induction s rule: length_induct)
  case (1 s)
  show ?case
  proof (cases "sublist old s")
    case False
    then have "cuts old [s] s" by (simp add: cuts_def)
    then show ?thesis ..
  next
    case True
    then obtain a b where s: "s = a @ old @ b" and a: "\<not> sublist old (a @ butlast old)"
      using leftmost_occurrence [OF assms] by blast
    have "length b < length s" using assms by (simp add: s)
    then obtain cs where cs: "cuts old cs b" using 1 by blast
    then have ne: "cs \<noteq> []" by (simp add: cuts_def)
    have "cuts old (a # cs) s"
      using cs a ne by (auto simp: cuts_def s join_with_Cons)
    then show ?thesis ..
  qed
qed

subsection \<open>The bumper\<close>

text \<open>
  Claim C1: for every version, bumping with \<^verbatim>\<open>"patch"\<close> returns the formatted string of
  (major, minor, patch + 1), bumping with \<^verbatim>\<open>"minor"\<close> that of (major, minor + 1, 0), and
  bumping with \<^verbatim>\<open>"major"\<close> that of (major + 1, 0, 0). It holds for all integer
  components, the non-negative ones among them.
\<close>

theorem bump_semver_kinds:
  "bump_semver v (py ''patch'')
     = semver_to_str \<lparr>major = major v, minor = minor v, patch = patch v + 1\<rparr>
   \<and> bump_semver v (py ''minor'')
     = semver_to_str \<lparr>major = major v, minor = minor v + 1, patch = 0\<rparr>
   \<and> bump_semver v (py ''major'')
     = semver_to_str \<lparr>major = major v + 1, minor = 0, patch = 0\<rparr>"
  by (simp add: bump_semver_def py_def)

theorem bump_semver_kinds_witness:
  "bump_semver \<lparr>major = 1, minor = 2, patch = 3\<rparr> (py ''patch'') = py ''1.2.4''
   \<and> bump_semver \<lparr>major = 1, minor = 2, patch = 3\<rparr> (py ''minor'') = py ''1.3.0''
   \<and> bump_semver \<lparr>major = 1, minor = 2, patch = 3\<rparr> (py ''major'') = py ''2.0.0''"
proof -
  have "semver_to_str \<lparr>major = 1, minor = 2, patch = 3 + 1\<rparr> = py ''1.2.4''"
    "semver_to_str \<lparr>major = 1, minor = 2 + 1, patch = 0\<rparr> = py ''1.3.0''"
    "semver_to_str \<lparr>major = 1 + 1, minor = 0, patch = 0\<rparr> = py ''2.0.0''"
    by code_simp+
  then show ?thesis
    using bump_semver_kinds [of "\<lparr>major = 1, minor = 2, patch = 3\<rparr>"] by simp
qed

text \<open>
  Claim C10: a bump kind that is neither \<^verbatim>\<open>"major"\<close> nor \<^verbatim>\<open>"minor"\<close>, whether it is
  \<^verbatim>\<open>"patch"\<close> or a string outside the documented three such as \<^verbatim>\<open>"foo"\<close>, takes the last
  branch: the result is the formatted string of (major, minor, patch + 1). The function
  has no branch that rejects a kind.
\<close>

theorem bump_semver_fallthrough:
  "bump_type \<noteq> py ''major'' \<Longrightarrow> bump_type \<noteq> py ''minor'' \<Longrightarrow>
   bump_semver v bump_type
     = semver_to_str \<lparr>major = major v, minor = minor v, patch = patch v + 1\<rparr>"
  by (simp add: bump_semver_def)

theorem bump_semver_fallthrough_witness:
  "py ''foo'' \<noteq> py ''major'' \<and> py ''foo'' \<noteq> py ''minor''
   \<and> bump_semver \<lparr>major = 1, minor = 2, patch = 3\<rparr> (py ''foo'') = py ''1.2.4''"
proof -
  have "semver_to_str \<lparr>major = 1, minor = 2, patch = 3 + 1\<rparr> = py ''1.2.4''"
    by code_simp
  moreover have "py ''foo'' \<noteq> py ''major''" "py ''foo'' \<noteq> py ''minor''"
    by (simp_all add: py_def)
  ultimately show ?thesis
    using bump_semver_fallthrough [of "py ''foo''" "\<lparr>major = 1, minor = 2, patch = 3\<rparr>"]
    by simp
qed

subsection \<open>Parsing and formatting\<close>

text \<open>
  Claim C2: for every version with non-negative components, parsing the formatted string
  succeeds and gives the version back, whatever the character database.
\<close>

theorem parse_semver_to_str:
  "0 \<le> major v \<Longrightarrow> 0 \<le> minor v \<Longrightarrow> 0 \<le> patch v \<Longrightarrow>
   parse_semver U (semver_to_str v) = Inr (v :: Version)"
  using parse_semver_triple [of U "nat (major v)" "nat (minor v)" "nat (patch v)"]
  by (simp add: semver_to_str_def str_int_def)

theorem parse_semver_to_str_witness:
  "(0::int) \<le> 10 \<and> (0::int) \<le> 0 \<and> (0::int) \<le> 305
   \<and> parse_semver example_unicode (semver_to_str \<lparr>major = 10, minor = 0, patch = 305\<rparr>)
       = Inr \<lparr>major = 10, minor = 0, patch = 305\<rparr>"
  using parse_semver_to_str [of "\<lparr>major = 10, minor = 0, patch = 305\<rparr>" example_unicode]
  by simp

text \<open>
  Claim C3, as the specification states it: a string with a segment that has a character
  which is not a decimal digit fails on an assertion. The code does not always fail so:
  the superscript two is a digit for \<^verbatim>\<open>isdigit\<close>, so that \<^verbatim>\<open>"1.2."\<close> followed by it passes
  both assertions, and it is not a decimal, so that \<^verbatim>\<open>int\<close> raises \<^verbatim>\<open>ValueError\<close>.
\<close>

theorem parse_semver_superscript_counterexample:
  "split 0x2E (py ''1.2.'' @ [0xB2]) = [py ''1'', py ''2'', [0xB2]]
   \<and> \<not> isdecimal_char example_unicode 0xB2
   \<and> parse_semver example_unicode (py ''1.2.'' @ [0xB2]) = Inl ValueError
   \<and> parse_semver example_unicode (py ''1.2.'' @ [0xB2]) \<noteq> Inl AssertionError"
  by (simp add: parse_semver_def py_def isdigit_def isdigit_char_def isdecimal_char_def
      py_int_def)

text \<open>
  Claim C3, amended to what the code does. Parsing succeeds exactly when splitting at the
  dots gives three segments, each of them a non-empty run of decimal digits (the
  characters for which \<^verbatim>\<open>isdecimal\<close> holds, of any script). It fails on an assertion
  exactly when the number of segments is not three or a segment is empty or has a
  character that is not a digit (\<^verbatim>\<open>isdigit\<close> is false); every string with a pre-release
  tag (a hyphen and more) or build metadata (a plus sign and more) fails so. It fails
  with the \<^verbatim>\<open>ValueError\<close> of \<^verbatim>\<open>int\<close>, and not on an assertion, exactly in the remaining
  case: three non-empty segments of digits, with a digit that is not a decimal.
\<close>

theorem parse_semver_format:
  "((\<exists>v. parse_semver U s = Inr v) \<longleftrightarrow>
      length (split 0x2E s) = 3
      \<and> (\<forall>seg \<in> set (split 0x2E s). seg \<noteq> [] \<and> list_all (isdecimal_char U) seg))
   \<and> (parse_semver U s = Inl AssertionError \<longleftrightarrow>
        length (split 0x2E s) \<noteq> 3
        \<or> (\<exists>seg \<in> set (split 0x2E s).
              seg = [] \<or> (\<exists>c \<in> set seg. \<not> isdigit_char U c)))
   \<and> parse_semver U (core @ py ''-'' @ tag) = Inl AssertionError
   \<and> parse_semver U (core @ py ''+'' @ tag) = Inl AssertionError
   \<and> (parse_semver U s = Inl ValueError \<longleftrightarrow>
        length (split 0x2E s) = 3
        \<and> (\<forall>seg \<in> set (split 0x2E s). seg \<noteq> [] \<and> list_all (isdigit_char U) seg)
        \<and> (\<exists>seg \<in> set (split 0x2E s). \<exists>c \<in> set seg. \<not> isdecimal_char U c))"
proof (intro conjI)
  show "(\<exists>v. parse_semver U s = Inr v) \<longleftrightarrow>
      length (split 0x2E s) = 3
      \<and> (\<forall>seg \<in> set (split 0x2E s). seg \<noteq> [] \<and> list_all (isdecimal_char U) seg)"
    by (rule parse_semver_succeeds_iff)
next
  show "parse_semver U s = Inl AssertionError \<longleftrightarrow>
        length (split 0x2E s) \<noteq> 3
        \<or> (\<exists>seg \<in> set (split 0x2E s).
              seg = [] \<or> (\<exists>c \<in> set seg. \<not> isdigit_char U c))"
    unfolding parse_semver_assertion_iff not_all_isdigit_iff ..
next
  show "parse_semver U (core @ py ''-'' @ tag) = Inl AssertionError"
    by (rule parse_semver_has_char [of "0x2D"]) (simp_all add: not_isdigit_minus_plus py_def)
next
  show "parse_semver U (core @ py ''+'' @ tag) = Inl AssertionError"
    by (rule parse_semver_has_char [of "0x2B"]) (simp_all add: not_isdigit_minus_plus py_def)
next
  show "parse_semver U s = Inl ValueError \<longleftrightarrow>
        length (split 0x2E s) = 3
        \<and> (\<forall>seg \<in> set (split 0x2E s). seg \<noteq> [] \<and> list_all (isdigit_char U) seg)
        \<and> (\<exists>seg \<in> set (split 0x2E s). \<exists>c \<in> set seg. \<not> isdecimal_char U c)"
    unfolding parse_semver_value_error_iff by (auto simp: list_all_iff isdigit_def)
qed

theorem parse_semver_format_witness:
  "(\<exists>v. parse_semver example_unicode (py ''1.2.3'') = Inr v)
   \<and> (\<exists>v. parse_semver example_unicode [0x661, 0x2E, 0x662, 0x2E, 0x663] = Inr v)
   \<and> parse_semver example_unicode (py ''1.2'') = Inl AssertionError
   \<and> parse_semver example_unicode (py ''1..3'') = Inl AssertionError
   \<and> parse_semver example_unicode (py ''1.2.x'') = Inl AssertionError
   \<and> parse_semver example_unicode (py ''1.2.3-alpha.1'') = Inl AssertionError
   \<and> parse_semver example_unicode (py ''1.2.3+build5'') = Inl AssertionError
   \<and> parse_semver example_unicode (py ''1.2.'' @ [0xB2]) = Inl ValueError"
proof -
  have a: "\<exists>v. parse_semver example_unicode (py ''1.2.3'') = Inr v"
    using parse_semver_format [of example_unicode "py ''1.2.3''" "[]" "[]"]
    by (simp add: isdecimal_char_def py_def)
  have a': "\<exists>v. parse_semver example_unicode [0x661, 0x2E, 0x662, 0x2E, 0x663] = Inr v"
    using parse_semver_format [of example_unicode "[0x661, 0x2E, 0x662, 0x2E, 0x663]" "[]" "[]"]
    by (simp add: isdecimal_char_def example_unicode_def)
  have b: "parse_semver example_unicode (py ''1.2'') = Inl AssertionError"
    using parse_semver_format [of example_unicode "py ''1.2''" "[]" "[]"]
    by (simp add: py_def)
  have b': "parse_semver example_unicode (py ''1..3'') = Inl AssertionError"
    using parse_semver_format [of example_unicode "py ''1..3''" "[]" "[]"]
    by (simp add: py_def)
  have c: "parse_semver example_unicode (py ''1.2.x'') = Inl AssertionError"
    using parse_semver_format [of example_unicode "py ''1.2.x''" "[]" "[]"]
    by (simp add: isdigit_char_def isdecimal_char_def py_def)
  have d: "parse_semver example_unicode (py ''1.2.3-alpha.1'') = Inl AssertionError"
    using parse_semver_format [of example_unicode "[]" "py ''1.2.3''" "py ''alpha.1''"]
    by (simp add: py_def)
  have e: "parse_semver example_unicode (py ''1.2.3+build5'') = Inl AssertionError"
    using parse_semver_format [of example_unicode "[]" "py ''1.2.3''" "py ''build5''"]
    by (simp add: py_def)
  have f: "parse_semver example_unicode (py ''1.2.'' @ [0xB2]) = Inl ValueError"
    using parse_semver_format [of example_unicode "py ''1.2.'' @ [0xB2]" "[]" "[]"]
    by (simp add: isdigit_char_def isdecimal_char_def py_def)
  from a a' b b' c d e f show ?thesis by simp
qed

subsection \<open>The JSON writer\<close>

text \<open>
  Claim C5: for every parsed manifest and every new version string, the JSON writer leaves
  a dictionary whose \<^verbatim>\<open>"version"\<close> is the new version and in which every other key has the
  value it had before (a key that was absent stays absent); a manifest that has the key
  keeps the order of its keys. The text written to \<^verbatim>\<open>package.json\<close> is the serialization
  of that dictionary.
\<close>

theorem new_version_to_json_frame:
  "new_version_to_json json_dump data new_version w = (data', w') \<Longrightarrow>
   map_of data' (py ''version'') = Some (PStr new_version)
   \<and> (\<forall>k. k \<noteq> py ''version'' \<longrightarrow> map_of data' k = map_of data k)
   \<and> (py ''version'' \<in> fst ` set data \<longrightarrow> map fst data' = map fst data)
   \<and> files w' ''package.json'' = Some (json_dump (PDict data'))
   \<and> trace w' = trace w @ [Write ''package.json'' (json_dump (PDict data'))]"
proof -
  assume "new_version_to_json json_dump data new_version w = (data', w')"
  then have d: "data' = AList.update (py ''version'') (PStr new_version) data"
    and w: "w' = write_file ''package.json'' (json_dump (PDict data')) w"
    by (auto simp: new_version_to_json_def Let_def)
  have "map_of data' (py ''version'') = Some (PStr new_version)"
    by (simp add: d update_conv')
  moreover have "\<forall>k. k \<noteq> py ''version'' \<longrightarrow> map_of data' k = map_of data k"
    by (simp add: d update_conv')
  moreover have "py ''version'' \<in> fst ` set data \<longrightarrow> map fst data' = map fst data"
    by (simp add: d update_keys)
  moreover have "files w' ''package.json'' = Some (json_dump (PDict data'))"
    by (simp add: w write_file_def)
  moreover have "trace w' = trace w @ [Write ''package.json'' (json_dump (PDict data'))]"
    by (simp add: w write_file_def)
  ultimately show ?thesis by blast
qed

theorem new_version_to_json_frame_witness:
  "map_of (fst (new_version_to_json example_json_dump
       [(py ''name'', PStr (py ''rag-rs'')), (py ''version'', PStr (py ''1.2.3''))]
       (py ''1.3.0'') (example_world (py ''1.2.3''))))
     (py ''name'') = Some (PStr (py ''rag-rs''))
   \<and> map_of (fst (new_version_to_json example_json_dump
       [(py ''name'', PStr (py ''rag-rs'')), (py ''version'', PStr (py ''1.2.3''))]
       (py ''1.3.0'') (example_world (py ''1.2.3''))))
     (py ''version'') = Some (PStr (py ''1.3.0''))"
  using new_version_to_json_frame [OF surjective_pairing,
      of example_json_dump
        "[(py ''name'', PStr (py ''rag-rs'')), (py ''version'', PStr (py ''1.2.3''))]"
        "py ''1.3.0''" "example_world (py ''1.2.3'')"]
  by (simp add: py_def)

subsection \<open>The TOML writer\<close>

text \<open>
  Claim C4, as the specification states it: the writer replaces the first line that is
  \<^verbatim>\<open>version = "<old>"\<close>, the old version quoted exactly, and leaves a text without such a
  line as it is. The code does not do that: the writer is not given the old version, and
  its pattern accepts any quoted string. In the manifest below a dependency table with
  its own \<^verbatim>\<open>version\<close> line comes before the package table; the code rewrites the line of
  the dependency and keeps the old version of the package, where the specification
  rewrites the line of the package.
\<close>

theorem new_version_to_toml_counterexample:
  "written ''Cargo.toml''
       (new_version_to_toml example_re_escaped example_unicode
          example_cargo_toml_dependency_first (py ''1.2.4'') (example_world (py ''1.2.3'')))
     = Some (py ''[dependencies.serde]'' @ NL @ py ''version = '' @ DQ @ py ''1.2.4'' @ DQ @ NL
               @ py ''[package]'' @ NL @ py ''name = '' @ DQ @ py ''rag-rs'' @ DQ @ NL
               @ py ''version = '' @ DQ @ py ''1.2.3'' @ DQ @ NL)
   \<and> spec_toml_writer (py ''1.2.3'') (py ''1.2.4'') example_cargo_toml_dependency_first
     = py ''[dependencies.serde]'' @ NL @ py ''version = '' @ DQ @ py ''1.0'' @ DQ @ NL
         @ py ''[package]'' @ NL @ py ''name = '' @ DQ @ py ''rag-rs'' @ DQ @ NL
         @ py ''version = '' @ DQ @ py ''1.2.4'' @ DQ @ NL
   \<and> written ''Cargo.toml''
       (new_version_to_toml example_re_escaped example_unicode
          example_cargo_toml_dependency_first (py ''1.2.4'') (example_world (py ''1.2.3'')))
     \<noteq> Some (spec_toml_writer (py ''1.2.3'') (py ''1.2.4'')
               example_cargo_toml_dependency_first)"
proof -
  have 1: "re_sub_version_line example_unicode (py ''version = '' @ DQ @ py ''1.2.4'' @ DQ)
       example_cargo_toml_dependency_first
     = py ''[dependencies.serde]'' @ NL @ py ''version = '' @ DQ @ py ''1.2.4'' @ DQ @ NL
         @ py ''[package]'' @ NL @ py ''name = '' @ DQ @ py ''rag-rs'' @ DQ @ NL
         @ py ''version = '' @ DQ @ py ''1.2.3'' @ DQ @ NL"
    by (simp add: re_sub_version_line_def example_cargo_toml_dependency_first_def
        match_version_line_def isspace_char_def py_def)
  have 2: "spec_toml_writer (py ''1.2.3'') (py ''1.2.4'') example_cargo_toml_dependency_first
     = py ''[dependencies.serde]'' @ NL @ py ''version = '' @ DQ @ py ''1.0'' @ DQ @ NL
         @ py ''[package]'' @ NL @ py ''name = '' @ DQ @ py ''rag-rs'' @ DQ @ NL
         @ py ''version = '' @ DQ @ py ''1.2.4'' @ DQ @ NL"
    by (simp add: spec_toml_writer_def example_cargo_toml_dependency_first_def py_def)
  have 3: "0x5C \<notin> set (py ''1.2.4'')" by (simp add: py_def)
  show ?thesis
    unfolding new_version_to_toml_literal [OF 3] 1 2
    by (simp add: written_def write_file_def py_def)
qed

text \<open>
  Claim C4, amended to what the code does. For a new version that has no backslash, as
  every version the bumper returns, the writer makes one substitution, of the first match
  of the pattern: a text that starts at the start of a line and ends at the end of a line
  and is the lower-case word \<^verbatim>\<open>version\<close>, optional white space, the equals sign, optional
  white space and a double-quoted, non-empty string with no double quote in it, whatever
  that string is. The match is replaced by \<^verbatim>\<open>version = "<new>"\<close>, the text before and
  after it is kept, and a text with no match is written back as it is. With a backslash in
  the new version \<^verbatim>\<open>re.sub\<close> reads the replacement as a template; when it raises, nothing
  is written.
\<close>

theorem new_version_to_toml_first_match:
  "(0x5C \<notin> set new_version \<and> line_match U pre m post
      \<and> (\<forall>pre' m' post'. pre @ m @ post = pre' @ m' @ post' \<and> line_match U pre' m' post'
            \<longrightarrow> length pre \<le> length pre')
    \<longrightarrow> new_version_to_toml re_escaped U (pre @ m @ post) new_version w
        = Inr (w\<lparr>files := (files w)(''Cargo.toml'' \<mapsto>
                   pre @ (py ''version = '' @ DQ @ new_version @ DQ) @ post),
                 trace := trace w @ [Write ''Cargo.toml''
                   (pre @ (py ''version = '' @ DQ @ new_version @ DQ) @ post)]\<rparr>))
   \<and> (0x5C \<notin> set new_version
      \<and> (\<forall>pre' m' post'. content = pre' @ m' @ post' \<longrightarrow> \<not> line_match U pre' m' post')
    \<longrightarrow> new_version_to_toml re_escaped U content new_version w
        = Inr (w\<lparr>files := (files w)(''Cargo.toml'' \<mapsto> content),
                 trace := trace w @ [Write ''Cargo.toml'' content]\<rparr>))
   \<and> (0x5C \<in> set new_version
      \<and> re_escaped (py ''version = '' @ DQ @ new_version @ DQ) content = Inl e
    \<longrightarrow> new_version_to_toml re_escaped U content new_version w = Inl e)"
proof (intro conjI impI)
  let ?repl = "py ''version = '' @ DQ @ new_version @ DQ"
  {
    assume h: "0x5C \<notin> set new_version \<and> line_match U pre m post
          \<and> (\<forall>pre' m' post'. pre @ m @ post = pre' @ m' @ post' \<and> line_match U pre' m' post'
                \<longrightarrow> length pre \<le> length pre')"
    let ?c = "pre @ m @ post"
    have at: "matches_at U ?c (length pre)"
      using h line_match_matches_at by blast
    then obtain post0 where p0: "match_version_line U (m @ post) = Some post0"
      by (auto simp: matches_at_def)
    have "post0 = post"
    proof -
      from h obtain ws1 ws2 q
        where m: "m = py ''version'' @ ws1 @ py ''='' @ ws2 @ DQ @ q @ DQ"
        and c: "list_all (isspace_char U) ws1" "list_all (isspace_char U) ws2" "q \<noteq> []"
          "0x22 \<notin> set q" "post = [] \<or> hd post = 0x0A"
        unfolding line_match_def version_assignment_def by blast
      have "match_version_line U (m @ post) = Some post"
        using match_version_line_complete [OF c] by (simp add: m)
      with p0 show ?thesis by simp
    qed
    with p0 have 1: "match_version_line U (m @ post) = Some post" by simp
    have 2: "if pre = [] then True else last pre = 0x0A"
      using h by (auto simp: line_match_def)
    have 3: "\<forall>j < length pre. \<not> ((if j = 0 then True else (pre @ m @ post) ! (j - 1) = 0x0A)
       \<and> match_version_line U (drop j (pre @ m @ post)) \<noteq> None)"
    proof (intro allI impI notI)
      fix j assume j: "j < length pre"
        and "(if j = 0 then True else (pre @ m @ post) ! (j - 1) = 0x0A)
           \<and> match_version_line U (drop j (pre @ m @ post)) \<noteq> None"
      then have "matches_at U ?c j" by (auto simp: matches_at_def split: if_splits)
      moreover have "j \<le> length ?c" using j by simp
      ultimately obtain m' post' where "?c = take j ?c @ m' @ post'"
        "line_match U (take j ?c) m' post'"
        using matches_at_line_match by blast
      with h have "length pre \<le> length (take j ?c)" by blast
      with j show False by simp
    qed
    have "re_sub_from U True ?repl (pre @ (m @ post)) = pre @ ?repl @ post"
      using 1 2 3 by (intro re_sub_from_first) simp_all
    moreover have "0x5C \<notin> set new_version" using h by blast
    ultimately show "new_version_to_toml re_escaped U (pre @ m @ post) new_version w
        = Inr (w\<lparr>files := (files w)(''Cargo.toml'' \<mapsto> pre @ ?repl @ post),
                 trace := trace w @ [Write ''Cargo.toml'' (pre @ ?repl @ post)]\<rparr>)"
      by (simp add: new_version_to_toml_literal write_file_def re_sub_version_line_def)
  }
  {
    assume h: "0x5C \<notin> set new_version
      \<and> (\<forall>pre' m' post'. content = pre' @ m' @ post' \<longrightarrow> \<not> line_match U pre' m' post')"
    have "\<forall>j < length content. \<not> ((if j = 0 then True else content ! (j - 1) = 0x0A)
       \<and> match_version_line U (drop j content) \<noteq> None)"
    proof (intro allI impI notI)
      fix j assume j: "j < length content"
        and "(if j = 0 then True else content ! (j - 1) = 0x0A)
           \<and> match_version_line U (drop j content) \<noteq> None"
      then have "matches_at U content j" by (auto simp: matches_at_def split: if_splits)
      then show False using matches_at_line_match [of U content j] j h by auto
    qed
    then have "re_sub_from U True ?repl content = content"
      by (rule re_sub_from_none)
    moreover have "0x5C \<notin> set new_version" using h by blast
    ultimately show "new_version_to_toml re_escaped U content new_version w
        = Inr (w\<lparr>files := (files w)(''Cargo.toml'' \<mapsto> content),
                 trace := trace w @ [Write ''Cargo.toml'' content]\<rparr>)"
      by (simp add: new_version_to_toml_literal write_file_def re_sub_version_line_def)
  }
  {
    assume "0x5C \<in> set new_version
      \<and> re_escaped (py ''version = '' @ DQ @ new_version @ DQ) content = Inl e"
    then show "new_version_to_toml re_escaped U content new_version w = Inl e"
      by (simp add: new_version_to_toml_def re_sub_def)
  }
qed

theorem new_version_to_toml_first_match_witness:
  "new_version_to_toml example_re_escaped example_unicode example_cargo_toml (py ''1.3.0'')
       (example_world (py ''1.2.3''))
     = Inr ((example_world (py ''1.2.3''))
         \<lparr>files := (files (example_world (py ''1.2.3'')))(''Cargo.toml'' \<mapsto>
            py ''[package]'' @ NL @ py ''name = '' @ DQ @ py ''rag-rs'' @ DQ @ NL
              @ py ''version = '' @ DQ @ py ''1.3.0'' @ DQ @ NL),
          trace := [Write ''Cargo.toml''
            (py ''[package]'' @ NL @ py ''name = '' @ DQ @ py ''rag-rs'' @ DQ @ NL
               @ py ''version = '' @ DQ @ py ''1.3.0'' @ DQ @ NL)]\<rparr>)
   \<and> written ''Cargo.toml''
       (new_version_to_toml example_re_escaped example_unicode (py ''[package]'')
          (py ''1.3.0'') (example_world (py ''1.2.3''))) = Some (py ''[package]'')
   \<and> new_version_to_toml example_re_escaped example_unicode example_cargo_toml
       (py ''1'' @ [0x5C] @ py ''g'') (example_world (py ''1.2.3'')) = Inl ReError"
proof -
  let ?U = example_unicode
  let ?pre = "py ''[package]'' @ NL @ py ''name = '' @ DQ @ py ''rag-rs'' @ DQ @ NL"
  let ?m = "py ''version'' @ py '' '' @ py ''='' @ py '' '' @ DQ @ py ''1.2.3'' @ DQ"
  let ?w = "example_world (py ''1.2.3'')"
  have split: "example_cargo_toml = ?pre @ ?m @ NL"
    by (simp add: example_cargo_toml_def py_def)
  have b: "0x5C \<notin> set (py ''1.3.0'')" by (simp add: py_def)
  have va: "version_assignment ?U ?m"
    unfolding version_assignment_def
    by (intro exI [of _ "py '' ''"] exI [of _ "py ''1.2.3''"])
      (simp add: isspace_char_def py_def)
  have lm: "line_match ?U ?pre ?m NL"
    using va by (simp add: line_match_def py_def)
  have none: "list_all (\<lambda>j. \<not> matches_at ?U (?pre @ ?m @ NL) j) [0..<length ?pre]"
    by code_simp
  have first: "\<forall>pre' m' post'. ?pre @ ?m @ NL = pre' @ m' @ post' \<and> line_match ?U pre' m' post'
      \<longrightarrow> length ?pre \<le> length pre'"
    using no_earlier_match [OF none] by blast
  have none': "list_all (\<lambda>j. \<not> matches_at ?U (py ''[package]'') j)
      [0..<length (py ''[package]'')]"
    by code_simp
  have no: "\<forall>pre' m' post'. py ''[package]'' = pre' @ m' @ post'
      \<longrightarrow> \<not> line_match ?U pre' m' post'"
  proof (intro allI impI notI)
    fix pre' m' post'
    assume e: "py ''[package]'' = pre' @ m' @ post'" and l: "line_match ?U pre' m' post'"
    then have "length (py ''[package]'') \<le> length pre'"
      using no_earlier_match [OF none'] by blast
    moreover have "length (py ''[package]'') = length pre' + length m' + length post'"
      using arg_cong [OF e, of length] by simp
    ultimately have "m' = []" by simp
    with l show False using version_assignment_not_Nil by (auto simp: line_match_def)
  qed
  have bs: "0x5C \<in> set (py ''1'' @ [0x5C] @ py ''g'')" by simp
  have esc: "example_re_escaped (py ''version = '' @ DQ @ (py ''1'' @ [0x5C] @ py ''g'') @ DQ)
      example_cargo_toml = Inl ReError"
    by (simp add: example_re_escaped_def)
  note t = new_version_to_toml_first_match [of "py ''1.3.0''" ?U ?pre ?m NL example_re_escaped
      ?w "py ''[package]''"]
  note t' = new_version_to_toml_first_match [of "py ''1'' @ [0x5C] @ py ''g''" ?U "[]" "[]" "[]"
      example_re_escaped ?w example_cargo_toml ReError]
  have 1: "new_version_to_toml example_re_escaped ?U example_cargo_toml (py ''1.3.0'') ?w
     = Inr (?w\<lparr>files := (files ?w)(''Cargo.toml'' \<mapsto>
              ?pre @ (py ''version = '' @ DQ @ py ''1.3.0'' @ DQ) @ NL),
            trace := trace ?w @ [Write ''Cargo.toml''
              (?pre @ (py ''version = '' @ DQ @ py ''1.3.0'' @ DQ) @ NL)]\<rparr>)"
    unfolding split using t b lm first by blast
  have 2: "new_version_to_toml example_re_escaped ?U (py ''[package]'') (py ''1.3.0'') ?w
     = Inr (?w\<lparr>files := (files ?w)(''Cargo.toml'' \<mapsto> py ''[package]''),
            trace := trace ?w @ [Write ''Cargo.toml'' (py ''[package]'')]\<rparr>)"
    using t b no by blast
  have 3: "new_version_to_toml example_re_escaped ?U example_cargo_toml
       (py ''1'' @ [0x5C] @ py ''g'') ?w = Inl ReError"
    using t' bs esc by blast
  show ?thesis
    unfolding 1 2 3 by (simp add: written_def example_world_def)
qed

subsection \<open>The installer-script writer\<close>

text \<open>
  Claim C8, as the specification states it: when the old substrings are not in the
  script, the content that results equals the original. The code does not keep a script
  with CR LF line ends as it is: the script is read in text mode, where the line ends
  become LF, and what was read is what is written.
\<close>

theorem new_version_to_pre_install_js_crlf_counterexample:
  "\<not> sublist (py ''Installing and compiling rag-rs 1.2.3'') example_crlf_script
   \<and> \<not> sublist (py ''cargo install rag-rs --vers 1.2.3'') example_crlf_script
   \<and> files example_crlf_world ''pre-install.js'' = Some (py ''run(`cargo build`);'' @ [0x0D, 0x0A])
   \<and> written ''pre-install.js''
       (new_version_to_pre_install_js (py ''1.2.3'') (py ''1.3.0'') example_crlf_world)
     = Some (py ''run(`cargo build`);'' @ [0x0A])
   \<and> written ''pre-install.js''
       (new_version_to_pre_install_js (py ''1.2.3'') (py ''1.3.0'') example_crlf_world)
     \<noteq> files example_crlf_world ''pre-install.js''"
proof -
  have 1: "\<not> sublist (py ''Installing and compiling rag-rs 1.2.3'') example_crlf_script"
    "\<not> sublist (py ''cargo install rag-rs --vers 1.2.3'') example_crlf_script"
    by code_simp+
  have 2: "written ''pre-install.js''
       (new_version_to_pre_install_js (py ''1.2.3'') (py ''1.3.0'') example_crlf_world)
     = Some (py ''run(`cargo build`);'' @ [0x0A])"
    by code_simp
  have 3: "files example_crlf_world ''pre-install.js''
     = Some (py ''run(`cargo build`);'' @ [0x0D, 0x0A])"
    by (simp add: example_crlf_world_def example_crlf_script_def)
  show ?thesis
    unfolding 2 3 using 1 by (simp add: py_def)
qed

text \<open>
  Claim C8, amended to what the code does. The installer-script writer reads the script
  in text mode, so with the line ends CR LF and CR turned into LF. In the text read it
  replaces every occurrence of the log line \<^verbatim>\<open>Installing and compiling rag-rs <old>\<close> by
  the same line with the new version, and then, in the result, every occurrence of the
  install line \<^verbatim>\<open>cargo install rag-rs --vers <old>\<close> likewise; the pieces of text between
  the occurrences are kept as they are, and the result is written to the script. Every
  text can be cut at its occurrences, so this says what is written for every script.
  When neither old line occurs in the text read, that text is what is written: the
  original, but for its line ends.
\<close>

theorem new_version_to_pre_install_js_replaces:
  assumes "files w ''pre-install.js'' = Some script"
  shows "\<exists>out.
     new_version_to_pre_install_js old_version new_version w
       = Inr (w\<lparr>files := (files w)(''pre-install.js'' \<mapsto> out),
                trace := trace w @ [Write ''pre-install.js'' out]\<rparr>)
     \<and> (\<exists>cs ds.
           cuts (py ''Installing and compiling rag-rs '' @ old_version) cs
             (universal_newlines script)
           \<and> cuts (py ''cargo install rag-rs --vers '' @ old_version) ds
               (join_with (py ''Installing and compiling rag-rs '' @ new_version) cs)
           \<and> out = join_with (py ''cargo install rag-rs --vers '' @ new_version) ds)
     \<and> (\<forall>cs ds.
           cuts (py ''Installing and compiling rag-rs '' @ old_version) cs
             (universal_newlines script)
           \<and> cuts (py ''cargo install rag-rs --vers '' @ old_version) ds
               (join_with (py ''Installing and compiling rag-rs '' @ new_version) cs)
           \<longrightarrow> out = join_with (py ''cargo install rag-rs --vers '' @ new_version) ds)
     \<and> (\<not> sublist (py ''Installing and compiling rag-rs '' @ old_version)
             (universal_newlines script)
         \<and> \<not> sublist (py ''cargo install rag-rs --vers '' @ old_version)
             (universal_newlines script)
         \<longrightarrow> out = universal_newlines script)"
proof -
  let ?L = "py ''Installing and compiling rag-rs '' @ old_version"
  let ?I = "py ''cargo install rag-rs --vers '' @ old_version"
  let ?L' = "py ''Installing and compiling rag-rs '' @ new_version"
  let ?I' = "py ''cargo install rag-rs --vers '' @ new_version"
  let ?text = "universal_newlines script"
  let ?out = "str_replace ?I ?I' (str_replace ?L ?L' ?text)"
  have ne: "?L \<noteq> []" "?I \<noteq> []" by (simp_all add: py_def)
  have run: "new_version_to_pre_install_js old_version new_version w
       = Inr (w\<lparr>files := (files w)(''pre-install.js'' \<mapsto> ?out),
                trace := trace w @ [Write ''pre-install.js'' ?out]\<rparr>)"
    using assms
    by (simp add: new_version_to_pre_install_js_def read_file_def write_file_def Let_def)
  have all: "out = join_with ?I' ds"
    if "cuts ?L cs ?text" "cuts ?I ds (join_with ?L' cs)" "out = ?out" for cs ds out
    using that str_replace_cuts [OF ne(1), of cs ?text ?L']
      str_replace_cuts [OF ne(2), of ds "join_with ?L' cs" ?I'] by simp
  obtain cs where cs: "cuts ?L cs ?text"
    using cuts_exist [OF ne(1)] by blast
  obtain ds where ds: "cuts ?I ds (join_with ?L' cs)"
    using cuts_exist [OF ne(2)] by blast
  have ex: "\<exists>cs ds. cuts ?L cs ?text \<and> cuts ?I ds (join_with ?L' cs)
      \<and> ?out = join_with ?I' ds"
    using cs ds all [OF cs ds] by blast
  have noop: "?out = ?text" if "\<not> sublist ?L ?text \<and> \<not> sublist ?I ?text"
  proof -
    from that have "replace_from ?L ?L' ?text = ?text" "replace_from ?I ?I' ?text = ?text"
      using replace_from_absent by blast+
    then show ?thesis
      unfolding str_replace_nonempty [OF ne(1)] str_replace_nonempty [OF ne(2)] by simp
  qed
  show ?thesis
    using run ex all noop by (intro exI [of _ ?out]) blast
qed

theorem new_version_to_pre_install_js_replaces_witness:
  "new_version_to_pre_install_js (py ''1.2.3'') (py ''1.3.0'') (example_world (py ''1.2.3''))
     = Inr ((example_world (py ''1.2.3''))
         \<lparr>files := (files (example_world (py ''1.2.3'')))(''pre-install.js'' \<mapsto>
            py ''log(`Installing and compiling rag-rs 1.3.0`);'' @ NL
              @ py ''run(`cargo install rag-rs --vers 1.3.0 --locked`);'' @ NL),
          trace := [Write ''pre-install.js''
            (py ''log(`Installing and compiling rag-rs 1.3.0`);'' @ NL
               @ py ''run(`cargo install rag-rs --vers 1.3.0 --locked`);'' @ NL)]\<rparr>)"
proof -
  let ?w = "example_world (py ''1.2.3'')"
  let ?a = "py ''log(`''"
  let ?b = "py ''`);'' @ NL @ py ''run(`''"
  let ?c = "py '' --locked`);'' @ NL"
  let ?L = "py ''Installing and compiling rag-rs '' @ py ''1.2.3''"
  let ?I = "py ''cargo install rag-rs --vers '' @ py ''1.2.3''"
  let ?L' = "py ''Installing and compiling rag-rs '' @ py ''1.3.0''"
  let ?I' = "py ''cargo install rag-rs --vers '' @ py ''1.3.0''"
  have rd: "universal_newlines example_pre_install_js = ?a @ ?L @ ?b @ ?I @ ?c"
    by code_simp
  have c1: "cuts ?L [?a, ?b @ ?I @ ?c] (?a @ ?L @ ?b @ ?I @ ?c)"
    by code_simp
  have j1: "join_with ?L' [?a, ?b @ ?I @ ?c] = (?a @ ?L' @ ?b) @ ?I @ ?c"
    by simp
  have c2: "cuts ?I [?a @ ?L' @ ?b, ?c] ((?a @ ?L' @ ?b) @ ?I @ ?c)"
    by code_simp
  have j2: "join_with ?I' [?a @ ?L' @ ?b, ?c]
      = py ''log(`Installing and compiling rag-rs 1.3.0`);'' @ NL
          @ py ''run(`cargo install rag-rs --vers 1.3.0 --locked`);'' @ NL"
    by (simp add: py_def)
  note f = example_loads(4) [of "py ''1.2.3''"]
  from new_version_to_pre_install_js_replaces [OF f,
      where old_version = "py ''1.2.3''" and new_version = "py ''1.3.0''"]
  obtain out where run: "new_version_to_pre_install_js (py ''1.2.3'') (py ''1.3.0'') ?w
       = Inr (?w\<lparr>files := (files ?w)(''pre-install.js'' \<mapsto> out),
                 trace := trace ?w @ [Write ''pre-install.js'' out]\<rparr>)"
    and all: "\<forall>cs ds. cuts ?L cs (universal_newlines example_pre_install_js)
           \<and> cuts ?I ds (join_with ?L' cs) \<longrightarrow> out = join_with ?I' ds"
    by blast
  have "out = join_with ?I' [?a @ ?L' @ ?b, ?c]"
    using all c1 c2 unfolding rd j1 [symmetric] by blast
  then show ?thesis
    unfolding run j2 by (simp add: example_world_def)
qed

subsection \<open>The driver\<close>

text \<open>
  Claim C6: when both manifests load and their version strings parse to versions that
  differ in a component, the driver ends with an uncaught \<^verbatim>\<open>AssertionError\<close> in the world
  it started from: nothing was written to standard output, so no prompt was shown, and no
  file was written, whatever standard input holds.
\<close>

theorem main_version_mismatch:
  assumes "load_version_from_toml toml_load w = Inr (v_rust, toml_content)"
    and "load_version_from_json json_load w = Inr (v_js, json_data)"
    and "parse_semver U v_rust = Inr semv_rust"
    and "parse_semver U v_js = Inr semv_js"
    and "major semv_rust \<noteq> major semv_js \<or> minor semv_rust \<noteq> minor semv_js
         \<or> patch semv_rust \<noteq> patch semv_js"
  shows "main re_escaped U toml_load json_load json_dump w stdin = (Uncaught AssertionError, w)"
  using assms(5) by (auto simp: main_validated [OF assms(1-4)] compare_semver_def)

theorem main_version_mismatch_witness:
  "main example_re_escaped example_unicode example_toml_load example_json_load
       example_json_dump (example_world (py ''1.2.4'')) [py ''patch'']
     = (Uncaught AssertionError, example_world (py ''1.2.4''))"
  by (rule main_version_mismatch [OF example_loads(1) example_loads(3) example_parses]) simp

text \<open>
  Claim C7: a bump kind in any casing, with white space around it, normalizes (lower
  case, then strip) to the kind. With manifests that agree, a line that normalizes to a
  kind is accepted as the kind itself: the run is the run on the kind and, with the
  installer script there, it is the bump of that kind, ending with exit code 0. A line
  that does not normalize to \<^verbatim>\<open>major\<close>, \<^verbatim>\<open>minor\<close> or \<^verbatim>\<open>patch\<close> makes the driver print the
  guidance and prompt again: after any number of
  such lines the loop goes on with the rest of the input in a world that has the files of
  the start and, in its trace, only the prompts and the guidance. When the input ends
  there, the run ends with the \<^verbatim>\<open>EOFError\<close> of \<^verbatim>\<open>input\<close>, no file written. The casing and
  the white space of the first part are those of the code points below 256; the other
  parts are about every line.
\<close>

theorem main_normalizes_and_retries:
  assumes "load_version_from_toml toml_load w = Inr (v_rust, toml_content)"
    and "load_version_from_json json_load w = Inr (v_js, json_data)"
    and "parse_semver U v_rust = Inr semv_rust"
    and "parse_semver U v_js = Inr semv_js"
    and "compare_semver semv_rust semv_js"
  shows "(list_all (\<lambda>c. c < 256 \<and> isspace_char U c) a
          \<and> list_all (\<lambda>c. c < 256 \<and> isspace_char U c) b
          \<and> list_all (\<lambda>c. c < 256) word \<and> lower U word = kind
          \<and> kind \<in> set [py ''major'', py ''minor'', py ''patch'']
        \<longrightarrow> strip U (lower U (a @ word @ b)) = kind)
     \<and> (strip U (lower U line) = kind \<and> kind \<in> set [py ''major'', py ''minor'', py ''patch'']
        \<longrightarrow> main re_escaped U toml_load json_load json_dump w (line # rest)
            = main re_escaped U toml_load json_load json_dump w (kind # rest)
          \<and> (\<forall>js. files w ''pre-install.js'' = Some js \<longrightarrow>
               main re_escaped U toml_load json_load json_dump w (line # rest) =
                 (let new_ver = bump_semver semv_rust kind;
                      x = json_dump
                            (PDict (AList.update (py ''version'') (PStr new_ver) json_data));
                      y = re_sub_version_line U (py ''version = '' @ DQ @ new_ver @ DQ)
                            toml_content;
                      z = str_replace (py ''cargo install rag-rs --vers '' @ v_rust)
                            (py ''cargo install rag-rs --vers '' @ new_ver)
                            (str_replace (py ''Installing and compiling rag-rs '' @ v_rust)
                               (py ''Installing and compiling rag-rs '' @ new_ver)
                               (universal_newlines js))
                  in (Exit 0,
                      w\<lparr>files := (files w)(''package.json'' \<mapsto> x, ''Cargo.toml'' \<mapsto> y,
                                            ''pre-install.js'' \<mapsto> z),
                        trace := trace w @
                          [Stdout (py ''What type of bump do you want to perform? [major/minor/patch] ''),
                           Write ''package.json'' x, Write ''Cargo.toml'' y,
                           Write ''pre-install.js'' z]\<rparr>))))
     \<and> ((\<forall>l \<in> set bad. strip U (lower U l) \<notin> set [py ''major'', py ''minor'', py ''patch''])
        \<longrightarrow> main re_escaped U toml_load json_load json_dump w (bad @ rest)
            = prompt_loop re_escaped U json_dump semv_rust v_rust json_data toml_content
                (w\<lparr>trace := trace w @ concat (map (\<lambda>l. [Stdout (py ''What type of bump do you want to perform? [major/minor/patch] ''), Stdout (py ''Please provide a valid version bump (major, minor or patch)'' @ NL)]) bad)\<rparr>) rest)
     \<and> ((\<forall>l \<in> set bad. strip U (lower U l) \<notin> set [py ''major'', py ''minor'', py ''patch''])
        \<longrightarrow> main re_escaped U toml_load json_load json_dump w bad
            = (Uncaught EOFError,
               w\<lparr>trace := trace w @ concat (map (\<lambda>l. [Stdout (py ''What type of bump do you want to perform? [major/minor/patch] ''), Stdout (py ''Please provide a valid version bump (major, minor or patch)'' @ NL)]) bad) @ [Stdout (py ''What type of bump do you want to perform? [major/minor/patch] '')]\<rparr>))"
proof (intro conjI impI allI)
  note m = main_validated [OF assms(1-4)]
  {
    assume "list_all (\<lambda>c. c < 256 \<and> isspace_char U c) a
          \<and> list_all (\<lambda>c. c < 256 \<and> isspace_char U c) b
          \<and> list_all (\<lambda>c. c < 256) word \<and> lower U word = kind
          \<and> kind \<in> set [py ''major'', py ''minor'', py ''patch'']"
    then show "strip U (lower U (a @ word @ b)) = kind"
      using strip_lower_padded [of U a b word kind] by blast
  }
  {
    assume h: "strip U (lower U line) = kind
      \<and> kind \<in> set [py ''major'', py ''minor'', py ''patch'']"
    then have n: "strip U (lower U line) = kind" by blast
    have k: "strip U (lower U kind) = kind"
      using h strip_lower_kind by blast
    show "main re_escaped U toml_load json_load json_dump w (line # rest)
            = main re_escaped U toml_load json_load json_dump w (kind # rest)"
      by (simp add: m assms(5) n k)
    fix js assume f: "files w ''pre-install.js'' = Some js"
    have v: "strip U (lower U line) \<in> set [py ''major'', py ''minor'', py ''patch'']"
      using h by simp
    show "main re_escaped U toml_load json_load json_dump w (line # rest) =
                 (let new_ver = bump_semver semv_rust kind;
                      x = json_dump
                            (PDict (AList.update (py ''version'') (PStr new_ver) json_data));
                      y = re_sub_version_line U (py ''version = '' @ DQ @ new_ver @ DQ)
                            toml_content;
                      z = str_replace (py ''cargo install rag-rs --vers '' @ v_rust)
                            (py ''cargo install rag-rs --vers '' @ new_ver)
                            (str_replace (py ''Installing and compiling rag-rs '' @ v_rust)
                               (py ''Installing and compiling rag-rs '' @ new_ver)
                               (universal_newlines js))
                  in (Exit 0,
                      w\<lparr>files := (files w)(''package.json'' \<mapsto> x, ''Cargo.toml'' \<mapsto> y,
                                            ''pre-install.js'' \<mapsto> z),
                        trace := trace w @
                          [Stdout (py ''What type of bump do you want to perform? [major/minor/patch] ''),
                           Write ''package.json'' x, Write ''Cargo.toml'' y,
                           Write ''pre-install.js'' z]\<rparr>))"
      unfolding m prompt_loop_valid [OF v f] n by (simp add: assms(5))
  }
  {
    assume h: "\<forall>l \<in> set bad. strip U (lower U l) \<notin> set [py ''major'', py ''minor'', py ''patch'']"
    show "main re_escaped U toml_load json_load json_dump w (bad @ rest)
            = prompt_loop re_escaped U json_dump semv_rust v_rust json_data toml_content
                (w\<lparr>trace := trace w @ concat (map (\<lambda>l. [Stdout (py ''What type of bump do you want to perform? [major/minor/patch] ''), Stdout (py ''Please provide a valid version bump (major, minor or patch)'' @ NL)]) bad)\<rparr>) rest"
      using prompt_loop_invalid [OF h] by (simp add: m assms(5))
  }
  {
    assume h: "\<forall>l \<in> set bad. strip U (lower U l) \<notin> set [py ''major'', py ''minor'', py ''patch'']"
    show "main re_escaped U toml_load json_load json_dump w bad
            = (Uncaught EOFError,
               w\<lparr>trace := trace w @ concat (map (\<lambda>l. [Stdout (py ''What type of bump do you want to perform? [major/minor/patch] ''), Stdout (py ''Please provide a valid version bump (major, minor or patch)'' @ NL)]) bad) @ [Stdout (py ''What type of bump do you want to perform? [major/minor/patch] '')]\<rparr>)"
      using prompt_loop_invalid [OF h, of re_escaped json_dump semv_rust v_rust json_data
          toml_content w "[]"]
      by (simp add: m assms(5) stdout_def)
  }
qed

theorem main_normalizes_and_retries_witness:
  "fst (main example_re_escaped example_unicode example_toml_load example_json_load
       example_json_dump (example_world (py ''1.2.3'')) [py ''  MAJOR '', py ''x'']) = Exit 0
   \<and> trace (snd (main example_re_escaped example_unicode example_toml_load example_json_load
       example_json_dump (example_world (py ''1.2.3'')) [py ''  MAJOR '', py ''x''])) =
      [Stdout (py ''What type of bump do you want to perform? [major/minor/patch] ''),
       Write ''package.json'' (example_package_json (py ''2.0.0'')),
       Write ''Cargo.toml''
         (py ''[package]'' @ NL @ py ''name = '' @ DQ @ py ''rag-rs'' @ DQ @ NL
            @ py ''version = '' @ DQ @ py ''2.0.0'' @ DQ @ NL),
       Write ''pre-install.js''
         (py ''log(`Installing and compiling rag-rs 2.0.0`);'' @ NL
            @ py ''run(`cargo install rag-rs --vers 2.0.0 --locked`);'' @ NL)]
   \<and> main example_re_escaped example_unicode example_toml_load example_json_load
       example_json_dump (example_world (py ''1.2.3'')) [py ''  MAJOR '', py ''x'']
     = main example_re_escaped example_unicode example_toml_load example_json_load
       example_json_dump (example_world (py ''1.2.3'')) [py ''major'', py ''x'']
   \<and> fst (main example_re_escaped example_unicode example_toml_load example_json_load
       example_json_dump (example_world (py ''1.2.3'')) [py ''foo'']) = Uncaught EOFError
   \<and> files (snd (main example_re_escaped example_unicode example_toml_load example_json_load
       example_json_dump (example_world (py ''1.2.3'')) [py ''foo''])) = files (example_world (py ''1.2.3''))
   \<and> trace (snd (main example_re_escaped example_unicode example_toml_load example_json_load
       example_json_dump (example_world (py ''1.2.3'')) [py ''foo''])) = [Stdout (py ''What type of bump do you want to perform? [major/minor/patch] ''), Stdout (py ''Please provide a valid version bump (major, minor or patch)'' @ NL), Stdout (py ''What type of bump do you want to perform? [major/minor/patch] '')]"
proof -
  let ?U = example_unicode
  have c: "compare_semver \<lparr>major = 1, minor = 2, patch = 3\<rparr> \<lparr>major = 1, minor = 2, patch = 3\<rparr>"
    by (simp add: compare_semver_def)
  note t = main_normalizes_and_retries [OF example_loads(1) example_loads(2)
      example_parses(1) example_parses(1) c]
  have sp: "list_all (\<lambda>c. c < 256 \<and> isspace_char ?U c) (py ''  '')"
    "list_all (\<lambda>c. c < 256 \<and> isspace_char ?U c) (py '' '')"
    "list_all (\<lambda>c. c < 256) (py ''MAJOR'')"
    by (simp_all add: isspace_char_def py_def)
  have lw: "lower ?U (py ''MAJOR'') = py ''major''"
    by (simp add: lower_def lower_char_def py_def)
  have k: "py ''major'' \<in> set [py ''major'', py ''minor'', py ''patch'']" by simp
  have line: "py ''  MAJOR '' = py ''  '' @ py ''MAJOR'' @ py '' ''" by (simp add: py_def)
  have b: "bump_semver \<lparr>major = 1, minor = 2, patch = 3\<rparr> (py ''major'') = py ''2.0.0''"
    by code_simp
  have x: "example_json_dump
       (PDict (AList.update (py ''version'') (PStr (py ''2.0.0''))
          [(py ''name'', PStr (py ''rag-rs'')), (py ''version'', PStr (py ''1.2.3''))]))
     = example_package_json (py ''2.0.0'')"
    by code_simp
  have y: "re_sub_version_line ?U (py ''version = '' @ DQ @ py ''2.0.0'' @ DQ) example_cargo_toml
     = py ''[package]'' @ NL @ py ''name = '' @ DQ @ py ''rag-rs'' @ DQ @ NL
         @ py ''version = '' @ DQ @ py ''2.0.0'' @ DQ @ NL"
    by code_simp
  have z: "str_replace (py ''cargo install rag-rs --vers '' @ py ''1.2.3'')
       (py ''cargo install rag-rs --vers '' @ py ''2.0.0'')
       (str_replace (py ''Installing and compiling rag-rs '' @ py ''1.2.3'')
          (py ''Installing and compiling rag-rs '' @ py ''2.0.0'')
          (universal_newlines example_pre_install_js))
     = py ''log(`Installing and compiling rag-rs 2.0.0`);'' @ NL
         @ py ''run(`cargo install rag-rs --vers 2.0.0 --locked`);'' @ NL"
    by code_simp
  note t1 = t [where a = "py ''  ''" and b = "py '' ''" and word = "py ''MAJOR''"
      and kind = "py ''major''" and line = "py ''  MAJOR ''" and rest = "[py ''x'']"
      and bad = "[]" and re_escaped = example_re_escaped and json_dump = example_json_dump]
  have prem: "list_all (\<lambda>c. c < 256 \<and> isspace_char ?U c) (py ''  '')
      \<and> list_all (\<lambda>c. c < 256 \<and> isspace_char ?U c) (py '' '')
      \<and> list_all (\<lambda>c. c < 256) (py ''MAJOR'') \<and> lower ?U (py ''MAJOR'') = py ''major''
      \<and> py ''major'' \<in> set [py ''major'', py ''minor'', py ''patch'']"
    by (intro conjI) (rule sp lw k)+
  have n: "strip ?U (lower ?U (py ''  MAJOR '')) = py ''major''"
    using t1 [THEN conjunct1, THEN mp, OF prem] unfolding line .
  have prem': "strip ?U (lower ?U (py ''  MAJOR '')) = py ''major''
      \<and> py ''major'' \<in> set [py ''major'', py ''minor'', py ''patch'']"
    using n k by blast
  note r = t1 [THEN conjunct2, THEN conjunct1, THEN mp, OF prem']
  have 1: "main example_re_escaped example_unicode example_toml_load example_json_load
       example_json_dump (example_world (py ''1.2.3'')) [py ''  MAJOR '', py ''x'']
     = (Exit 0,
        (example_world (py ''1.2.3''))
          \<lparr>files := (files (example_world (py ''1.2.3'')))
             (''package.json'' \<mapsto> example_package_json (py ''2.0.0''),
              ''Cargo.toml'' \<mapsto>
                py ''[package]'' @ NL @ py ''name = '' @ DQ @ py ''rag-rs'' @ DQ @ NL
                  @ py ''version = '' @ DQ @ py ''2.0.0'' @ DQ @ NL,
              ''pre-install.js'' \<mapsto>
                py ''log(`Installing and compiling rag-rs 2.0.0`);'' @ NL
                  @ py ''run(`cargo install rag-rs --vers 2.0.0 --locked`);'' @ NL),
           trace := trace (example_world (py ''1.2.3'')) @
             [Stdout (py ''What type of bump do you want to perform? [major/minor/patch] ''),
              Write ''package.json'' (example_package_json (py ''2.0.0'')),
              Write ''Cargo.toml''
                (py ''[package]'' @ NL @ py ''name = '' @ DQ @ py ''rag-rs'' @ DQ @ NL
                   @ py ''version = '' @ DQ @ py ''2.0.0'' @ DQ @ NL),
              Write ''pre-install.js''
                (py ''log(`Installing and compiling rag-rs 2.0.0`);'' @ NL
                   @ py ''run(`cargo install rag-rs --vers 2.0.0 --locked`);'' @ NL)]\<rparr>)"
    using r [THEN conjunct2, THEN spec, THEN mp, OF example_loads(4) [of "py ''1.2.3''"]]
    unfolding Let_def b x y z by simp
  have 2: "main example_re_escaped example_unicode example_toml_load example_json_load
       example_json_dump (example_world (py ''1.2.3'')) [py ''  MAJOR '', py ''x''] = main example_re_escaped example_unicode example_toml_load example_json_load
       example_json_dump (example_world (py ''1.2.3'')) [py ''major'', py ''x'']"
    using r [THEN conjunct1] by simp
  have bad: "\<forall>l \<in> set [py ''foo''].
      strip ?U (lower ?U l) \<notin> set [py ''major'', py ''minor'', py ''patch'']"
    using example_foo by (simp add: example_normalized)
  have 3: "main example_re_escaped example_unicode example_toml_load example_json_load
       example_json_dump (example_world (py ''1.2.3'')) [py ''foo'']
       = (Uncaught EOFError, (example_world (py ''1.2.3''))
           \<lparr>trace := trace (example_world (py ''1.2.3''))
              @ concat (map (\<lambda>l. [Stdout (py ''What type of bump do you want to perform? [major/minor/patch] ''), Stdout (py ''Please provide a valid version bump (major, minor or patch)'' @ NL)]) [py ''foo'']) @ [Stdout (py ''What type of bump do you want to perform? [major/minor/patch] '')]\<rparr>)"
    using t [where a = "[]" and b = "[]" and word = "[]" and kind = "[]" and line = "[]"
        and rest = "[]" and bad = "[py ''foo'']"
        and re_escaped = example_re_escaped and json_dump = example_json_dump,
        THEN conjunct2, THEN conjunct2, THEN conjunct2, THEN mp, OF bad]
    by simp
  show ?thesis
    unfolding 3 unfolding 2 [symmetric] unfolding 1
    by (simp add: example_world_def)
qed

text \<open>
  Claim C9: with manifests that agree and an installer script that exists, the first
  valid line, after any number of invalid ones, makes the driver compute the new version
  from the version parsed from \<^verbatim>\<open>Cargo.toml\<close>, write \<^verbatim>\<open>package.json\<close>, then
  \<^verbatim>\<open>Cargo.toml\<close>, then \<^verbatim>\<open>pre-install.js\<close>, and exit with code 0.
\<close>

theorem main_applies_bump:
  assumes "load_version_from_toml toml_load w = Inr (v_rust, toml_content)"
    and "load_version_from_json json_load w = Inr (v_js, json_data)"
    and "parse_semver U v_rust = Inr semv_rust"
    and "parse_semver U v_js = Inr semv_js"
    and "compare_semver semv_rust semv_js"
    and "files w ''pre-install.js'' = Some js"
    and "\<forall>l \<in> set bad. strip U (lower U l) \<notin> set [py ''major'', py ''minor'', py ''patch'']"
    and "strip U (lower U line) \<in> set [py ''major'', py ''minor'', py ''patch'']"
  shows "main re_escaped U toml_load json_load json_dump w (bad @ line # rest) =
     (let new_ver = bump_semver semv_rust (strip U (lower U line));
          x = json_dump (PDict (AList.update (py ''version'') (PStr new_ver) json_data));
          y = re_sub_version_line U (py ''version = '' @ DQ @ new_ver @ DQ) toml_content;
          z = str_replace (py ''cargo install rag-rs --vers '' @ v_rust)
                (py ''cargo install rag-rs --vers '' @ new_ver)
                (str_replace (py ''Installing and compiling rag-rs '' @ v_rust)
                   (py ''Installing and compiling rag-rs '' @ new_ver)
                   (universal_newlines js))
      in (Exit 0,
          w\<lparr>files := (files w)(''package.json'' \<mapsto> x, ''Cargo.toml'' \<mapsto> y,
                                ''pre-install.js'' \<mapsto> z),
            trace := trace w @ concat (map (\<lambda>l. [Stdout (py ''What type of bump do you want to perform? [major/minor/patch] ''), Stdout (py ''Please provide a valid version bump (major, minor or patch)'' @ NL)]) bad)
              @ [Stdout (py ''What type of bump do you want to perform? [major/minor/patch] ''),
                 Write ''package.json'' x, Write ''Cargo.toml'' y,
                 Write ''pre-install.js'' z]\<rparr>))"
proof -
  let ?w = "w\<lparr>trace := trace w @ concat (map (\<lambda>l. [Stdout (py ''What type of bump do you want to perform? [major/minor/patch] ''), Stdout (py ''Please provide a valid version bump (major, minor or patch)'' @ NL)]) bad)\<rparr>"
  have f: "files ?w ''pre-install.js'' = Some js" using assms(6) by simp
  show ?thesis
    unfolding main_validated [OF assms(1-4)] prompt_loop_invalid [OF assms(7)]
      prompt_loop_valid [OF assms(8) f]
    by (simp add: assms(5) Let_def)
qed

theorem main_applies_bump_witness:
  "fst (main example_re_escaped example_unicode example_toml_load example_json_load
       example_json_dump (example_world (py ''1.2.3'')) [py ''foo'', py '' Minor'', py ''x'']) = Exit 0
   \<and> trace (snd (main example_re_escaped example_unicode example_toml_load example_json_load
       example_json_dump (example_world (py ''1.2.3'')) [py ''foo'', py '' Minor'', py ''x''])) =
      [Stdout (py ''What type of bump do you want to perform? [major/minor/patch] ''), Stdout (py ''Please provide a valid version bump (major, minor or patch)'' @ NL), Stdout (py ''What type of bump do you want to perform? [major/minor/patch] ''),
       Write ''package.json'' (example_package_json (py ''1.3.0'')),
       Write ''Cargo.toml''
         (py ''[package]'' @ NL @ py ''name = '' @ DQ @ py ''rag-rs'' @ DQ @ NL
            @ py ''version = '' @ DQ @ py ''1.3.0'' @ DQ @ NL),
       Write ''pre-install.js''
         (py ''log(`Installing and compiling rag-rs 1.3.0`);'' @ NL
            @ py ''run(`cargo install rag-rs --vers 1.3.0 --locked`);'' @ NL)]"
proof -
  let ?U = example_unicode
  have c: "compare_semver \<lparr>major = 1, minor = 2, patch = 3\<rparr> \<lparr>major = 1, minor = 2, patch = 3\<rparr>"
    by (simp add: compare_semver_def)
  have bad: "\<forall>l \<in> set [py ''foo''].
      strip ?U (lower ?U l) \<notin> set [py ''major'', py ''minor'', py ''patch'']"
    using example_foo by (simp add: example_normalized)
  have good: "strip ?U (lower ?U (py '' Minor''))
      \<in> set [py ''major'', py ''minor'', py ''patch'']"
    by (simp add: example_normalized)
  have b: "bump_semver \<lparr>major = 1, minor = 2, patch = 3\<rparr> (py ''minor'') = py ''1.3.0''"
    by code_simp
  have x: "example_json_dump
       (PDict (AList.update (py ''version'') (PStr (py ''1.3.0''))
          [(py ''name'', PStr (py ''rag-rs'')), (py ''version'', PStr (py ''1.2.3''))]))
     = example_package_json (py ''1.3.0'')"
    by code_simp
  have y: "re_sub_version_line ?U (py ''version = '' @ DQ @ py ''1.3.0'' @ DQ) example_cargo_toml
     = py ''[package]'' @ NL @ py ''name = '' @ DQ @ py ''rag-rs'' @ DQ @ NL
         @ py ''version = '' @ DQ @ py ''1.3.0'' @ DQ @ NL"
    by code_simp
  have z: "str_replace (py ''cargo install rag-rs --vers '' @ py ''1.2.3'')
       (py ''cargo install rag-rs --vers '' @ py ''1.3.0'')
       (str_replace (py ''Installing and compiling rag-rs '' @ py ''1.2.3'')
          (py ''Installing and compiling rag-rs '' @ py ''1.3.0'')
          (universal_newlines example_pre_install_js))
     = py ''log(`Installing and compiling rag-rs 1.3.0`);'' @ NL
         @ py ''run(`cargo install rag-rs --vers 1.3.0 --locked`);'' @ NL"
    by code_simp
  show ?thesis
    using main_applies_bump [OF example_loads(1) example_loads(2) example_parses(1)
        example_parses(1) c example_loads(4) bad good,
        where re_escaped = example_re_escaped and json_dump = example_json_dump
          and rest = "[py ''x'']"]
    unfolding example_normalized b Let_def x y z
    by (simp add: example_world_def)
qed

end
